theory Spec2Isabelle
  imports Complex_Main
begin

section \<open>The monitored database\<close>

text \<open>
  The monitor of \<^verbatim>\<open>quality_monitor.py\<close> reads the monitored tables through SQL queries
  over SQLite. A cell is what SQLite stores: NULL, an INTEGER, a REAL or a TEXT value; a
  REAL cell holds the exact value of the stored number. A table is what
  \<^verbatim>\<open>PRAGMA table_info\<close> and \<^verbatim>\<open>SELECT\<close> give: the column names with their declared
  types, and the rows. The database is the list of its tables by name, as
  \<^verbatim>\<open>sqlite_master\<close> lists them. Table and column names are plain identifiers,
  compared as they are written.
\<close>

datatype cell = Null | IntV int | RealV real | TextV string

record table =
  columns :: "(string \<times> string) list"
  rows :: "cell list list"

type_synonym database = "(string \<times> table) list"

datatype error =
    ValueError string
  | OperationalError string
  | TypeError string
  | ReError string
  | JSONDecodeError string

text \<open>\<^verbatim>\<open>str(e)\<close>: the message of the exception.\<close>

fun str_of_error :: "error \<Rightarrow> string" where
  "str_of_error (ValueError m) = m"
| "str_of_error (OperationalError m) = m"
| "str_of_error (TypeError m) = m"
| "str_of_error (ReError m) = m"
| "str_of_error (JSONDecodeError m) = m"

text \<open>
  \<^verbatim>\<open>_validate_table_name\<close> raises \<^verbatim>\<open>ValueError\<close> unless the name is one of the tables
  of the database. The name may be Python's \<^verbatim>\<open>None\<close> (a configuration key that is
  absent), which the message prints as \<^verbatim>\<open>None\<close>. The model returns the table that the
  queries after the validation read.
\<close>

definition validate_table_name :: "database \<Rightarrow> string option \<Rightarrow> error + table" where
  "validate_table_name db table_name =
     (case table_name of
        None \<Rightarrow> Inl (ValueError ''Invalid table name: None'')
      | Some n \<Rightarrow>
          (case map_of db n of
             None \<Rightarrow> Inl (ValueError (''Invalid table name: '' @ n))
           | Some t \<Rightarrow> Inr t))"

fun index_of :: "'a \<Rightarrow> 'a list \<Rightarrow> nat option" where
  "index_of x [] = None"
| "index_of x (y # ys) =
     (if x = y then Some 0 else (case index_of x ys of None \<Rightarrow> None | Some i \<Rightarrow> Some (Suc i)))"

definition cell_at :: "cell list \<Rightarrow> nat \<Rightarrow> cell" where
  "cell_at r i = (if i < length r then r ! i else Null)"

text \<open>
  The values of a column, row by row. A name that is not a column of the table makes
  SQLite raise \<^verbatim>\<open>no such column\<close>; \<open>q\<close> is the name as the query writes it
  (\<^verbatim>\<open>t.customer_id\<close> in the join).
\<close>

definition column_values :: "table \<Rightarrow> string \<Rightarrow> string \<Rightarrow> error + cell list" where
  "column_values t q column_name =
     (case index_of column_name (map fst (columns t)) of
        None \<Rightarrow> Inl (OperationalError (''no such column: '' @ q))
      | Some i \<Rightarrow> Inr (map (\<lambda>r. cell_at r i) (rows t)))"

subsection \<open>SQL predicates\<close>

text \<open>
  \<^verbatim>\<open>c IS NULL OR c = ''\<close>, \<^verbatim>\<open>c IS NOT NULL\<close>, \<^verbatim>\<open>c IS NOT NULL AND c != ''\<close>,
  \<^verbatim>\<open>c < ?\<close> and \<^verbatim>\<open>c > ?\<close> with a numeric parameter. A comparison with NULL is not
  true; a text is greater than every number (the order of SQLite's storage classes).
\<close>

definition null_or_empty :: "cell \<Rightarrow> bool" where
  "null_or_empty c = (c = Null \<or> c = TextV [])"

definition not_null :: "cell \<Rightarrow> bool" where
  "not_null c = (c \<noteq> Null)"

definition not_null_nor_empty :: "cell \<Rightarrow> bool" where
  "not_null_nor_empty c = (c \<noteq> Null \<and> c \<noteq> TextV [])"

fun sql_lt :: "cell \<Rightarrow> real \<Rightarrow> bool" where
  "sql_lt Null v = False"
| "sql_lt (IntV i) v = (real_of_int i < v)"
| "sql_lt (RealV x) v = (x < v)"
| "sql_lt (TextV s) v = False"

fun sql_gt :: "cell \<Rightarrow> real \<Rightarrow> bool" where
  "sql_gt Null v = False"
| "sql_gt (IntV i) v = (real_of_int i > v)"
| "sql_gt (RealV x) v = (x > v)"
| "sql_gt (TextV s) v = True"

text \<open>
  Equality of values, for \<^verbatim>\<open>COUNT(DISTINCT c)\<close> and the join condition: an INTEGER
  and a REAL are equal when they are the same number.
\<close>

fun sql_key :: "cell \<Rightarrow> cell" where
  "sql_key (IntV i) = RealV (real_of_int i)"
| "sql_key c = c"

definition sql_eq :: "cell \<Rightarrow> cell \<Rightarrow> bool" where
  "sql_eq a b = (a \<noteq> Null \<and> b \<noteq> Null \<and> sql_key a = sql_key b)"

definition count_distinct :: "cell list \<Rightarrow> nat" where
  "count_distinct vs = length (remdups (map sql_key (filter not_null vs)))"

section \<open>Formatting\<close>

text \<open>
  The f-strings of the checkers print counts in decimal and the percentage with
  \<^verbatim>\<open>:.2f\<close>, which rounds to two decimals, a tie to the even digit. The percentage
  is a real number here, where the program has a double.
\<close>

definition digit_char :: "nat \<Rightarrow> char" where
  "digit_char d = char_of (48 + d)"

fun dec_nat :: "nat \<Rightarrow> string" where
  "dec_nat n = (if n < 10 then [digit_char n] else dec_nat (n div 10) @ [digit_char (n mod 10)])"

declare dec_nat.simps [simp del]

definition dec_int :: "int \<Rightarrow> string" where
  "dec_int i = (if i < 0 then CHR ''-'' # dec_nat (nat (- i)) else dec_nat (nat i))"

definition round_half_even :: "real \<Rightarrow> int" where
  "round_half_even y =
     (let f = \<lfloor>y\<rfloor>; r = y - real_of_int f
      in if r < 1 / 2 then f else if 1 / 2 < r then f + 1 else if even f then f else f + 1)"

definition fmt_2f :: "real \<Rightarrow> string" where
  "fmt_2f x =
     (let k = nat (round_half_even (\<bar>x\<bar> * 100))
      in (if x < 0 then ''-'' else '''') @ dec_nat (k div 100) @ ''.''
         @ [digit_char (k mod 100 div 10), digit_char (k mod 10)])"

section \<open>The checkers\<close>

datatype status = PASS | FAIL | ERROR

record check_result =
  metric_value :: real
  status :: status
  details :: string

text \<open>\<^verbatim>\<open>(count / total_count * 100) if total_count > 0 else 0\<close>\<close>

definition percentage :: "nat \<Rightarrow> nat \<Rightarrow> real" where
  "percentage part whole = (if whole > 0 then real part / real whole * 100 else 0)"

definition verdict :: "real \<Rightarrow> real \<Rightarrow> status" where
  "verdict metric threshold = (if metric \<le> threshold then PASS else FAIL)"

definition check_nulls :: "database \<Rightarrow> string \<Rightarrow> string \<Rightarrow> real \<Rightarrow> error + check_result" where
  "check_nulls db table_name column_name threshold =
     (case validate_table_name db (Some table_name) of
        Inl e \<Rightarrow> Inl e
      | Inr t \<Rightarrow>
          (let total_count = length (rows t) in
           case column_values t column_name column_name of
             Inl e \<Rightarrow> Inl e
           | Inr vs \<Rightarrow>
               (let null_count = length (filter null_or_empty vs);
                    null_percentage = percentage null_count total_count
                in Inr \<lparr> metric_value = null_percentage,
                         status = verdict null_percentage threshold,
                         details = dec_nat null_count @ ''/'' @ dec_nat total_count
                                   @ '' null values ('' @ fmt_2f null_percentage @ ''%)'' \<rparr>)))"

definition check_range ::
  "database \<Rightarrow> string \<Rightarrow> string \<Rightarrow> real option \<Rightarrow> real option \<Rightarrow> real \<Rightarrow> error + check_result" where
  "check_range db table_name column_name min_val max_val threshold =
     (case validate_table_name db (Some table_name) of
        Inl e \<Rightarrow> Inl e
      | Inr t \<Rightarrow>
          (case column_values t column_name column_name of
             Inl e \<Rightarrow> Inl e
           | Inr vs \<Rightarrow>
               (let total_count = length (filter not_null vs) in
                case (case (min_val, max_val) of
                        (Some lo, Some hi) \<Rightarrow> Some (length (filter (\<lambda>c. sql_lt c lo \<or> sql_gt c hi) vs))
                      | (Some lo, None) \<Rightarrow> Some (length (filter (\<lambda>c. sql_lt c lo) vs))
                      | (None, Some hi) \<Rightarrow> Some (length (filter (\<lambda>c. sql_gt c hi) vs))
                      | (None, None) \<Rightarrow> None) of
                  None \<Rightarrow> Inr \<lparr> metric_value = 0, status = PASS, details = ''No range specified'' \<rparr>
                | Some out_of_range_count \<Rightarrow>
                    (let out_of_range_percentage = percentage out_of_range_count total_count
                     in Inr \<lparr> metric_value = out_of_range_percentage,
                              status = verdict out_of_range_percentage threshold,
                              details = dec_nat out_of_range_count @ ''/'' @ dec_nat total_count
                                        @ '' out of range ('' @ fmt_2f out_of_range_percentage @ ''%)'' \<rparr>))))"

definition check_uniqueness :: "database \<Rightarrow> string \<Rightarrow> string \<Rightarrow> real \<Rightarrow> error + check_result" where
  "check_uniqueness db table_name column_name threshold =
     (case validate_table_name db (Some table_name) of
        Inl e \<Rightarrow> Inl e
      | Inr t \<Rightarrow>
          (case column_values t column_name column_name of
             Inl e \<Rightarrow> Inl e
           | Inr vs \<Rightarrow>
               (let total_count = length (filter not_null vs);
                    unique_count = count_distinct vs;
                    duplicate_count = total_count - unique_count;
                    duplicate_percentage = percentage duplicate_count total_count
                in Inr \<lparr> metric_value = duplicate_percentage,
                         status = verdict duplicate_percentage threshold,
                         details = dec_nat duplicate_count
                                   @ '' duplicates ('' @ fmt_2f duplicate_percentage @ ''%)'' \<rparr>)))"

text \<open>
  The orphan count is the number of rows of
  \<^verbatim>\<open>t LEFT JOIN r ON t.c = r.rc WHERE t.c IS NOT NULL AND r.rc IS NULL\<close>. The left
  join pairs a value of \<open>t.c\<close> with every equal value of \<open>r.rc\<close>, and with NULL when
  there is none.
\<close>

definition left_join :: "cell list \<Rightarrow> cell list \<Rightarrow> (cell \<times> cell) list" where
  "left_join ts rs =
     concat (map (\<lambda>x. (let ms = filter (sql_eq x) rs
                        in if ms = [] then [(x, Null)] else map (Pair x) ms)) ts)"

definition orphans :: "cell list \<Rightarrow> cell list \<Rightarrow> nat" where
  "orphans ts rs = length (filter (\<lambda>(x, y). x \<noteq> Null \<and> y = Null) (left_join ts rs))"

definition check_foreign_key ::
  "database \<Rightarrow> string \<Rightarrow> string \<Rightarrow> string option \<Rightarrow> string option \<Rightarrow> real \<Rightarrow> error + check_result" where
  "check_foreign_key db table_name column_name ref_table ref_column threshold =
     (case validate_table_name db (Some table_name) of
        Inl e \<Rightarrow> Inl e
      | Inr t \<Rightarrow>
          (case validate_table_name db ref_table of
             Inl e \<Rightarrow> Inl e
           | Inr r \<Rightarrow>
               (case column_values t (''t.'' @ column_name) column_name of
                  Inl e \<Rightarrow> Inl e
                | Inr ts \<Rightarrow>
                    (case (case ref_column of
                             None \<Rightarrow> Inl (OperationalError ''no such column: r.None'')
                           | Some rc \<Rightarrow> column_values r (''r.'' @ rc) rc) of
                       Inl e \<Rightarrow> Inl e
                     | Inr rs \<Rightarrow>
                         (let orphan_count = orphans ts rs;
                              total_count = length (filter not_null ts);
                              orphan_percentage = percentage orphan_count total_count
                          in Inr \<lparr> metric_value = orphan_percentage,
                                   status = verdict orphan_percentage threshold,
                                   details = dec_nat orphan_count
                                             @ '' orphan records ('' @ fmt_2f orphan_percentage @ ''%)'' \<rparr>)))))"

section \<open>Regular expressions\<close>

text \<open>
  \<^verbatim>\<open>_check_format\<close> calls \<^verbatim>\<open>re.match(pattern, str(value))\<close> of Python's library.
  The model covers the patterns made of literal characters, \<^verbatim>\<open>.\<close>, character sets
  \<^verbatim>\<open>[...]\<close>, the escapes \<^verbatim>\<open>\d \w \D \W\<close> and escaped punctuation, the anchors
  \<^verbatim>\<open>^\<close> and \<^verbatim>\<open>$\<close>, and the repetitions \<^verbatim>\<open>* + ? {m} {m,} {m,n}\<close> (a lazy
  \<^verbatim>\<open>?\<close> after a repetition is accepted: it does not change whether a match exists).
  This covers the patterns of the default rules. Groups, alternation and the other
  escapes are outside the model, which rejects them like a malformed pattern; text is
  ASCII. \<^verbatim>\<open>re.match\<close> looks for a match that starts at the first character and may
  end anywhere; \<^verbatim>\<open>$\<close> matches at the end of the text or before a final newline.
\<close>

datatype atom = Lit char | Dot | Cls bool "(char \<times> char) list"

datatype item = Bol | Eol | Rep atom nat "nat option"

datatype ctok = CChar char | CDash | CSet bool "(char \<times> char) list"

definition char_le :: "char \<Rightarrow> char \<Rightarrow> bool" where
  "char_le a b = ((of_char a :: nat) \<le> of_char b)"

definition is_digit :: "char \<Rightarrow> bool" where
  "is_digit c = (char_le CHR ''0'' c \<and> char_le c CHR ''9'')"

definition is_alnum :: "char \<Rightarrow> bool" where
  "is_alnum c = (is_digit c \<or> (char_le CHR ''a'' c \<and> char_le c CHR ''z'')
                 \<or> (char_le CHR ''A'' c \<and> char_le c CHR ''Z''))"

definition digit_set :: "(char \<times> char) list" where
  "digit_set = [(CHR ''0'', CHR ''9'')]"

definition word_set :: "(char \<times> char) list" where
  "word_set = [(CHR ''a'', CHR ''z''), (CHR ''A'', CHR ''Z''), (CHR ''0'', CHR ''9''),
               (CHR ''_'', CHR ''_'')]"

definition escape_tok :: "char \<Rightarrow> string + ctok" where
  "escape_tok e =
     (if e = CHR ''d'' then Inr (CSet False digit_set)
      else if e = CHR ''D'' then Inr (CSet True digit_set)
      else if e = CHR ''w'' then Inr (CSet False word_set)
      else if e = CHR ''W'' then Inr (CSet True word_set)
      else if is_alnum e then Inl (''bad escape '' @ [CHR 0x5C, e])
      else Inr (CChar e))"

fun class_tokens :: "bool \<Rightarrow> string \<Rightarrow> string + (ctok list \<times> string)" where
  "class_tokens first [] = Inl ''unterminated character set''"
| "class_tokens first (c # s) =
     (if c = CHR '']'' \<and> \<not> first then Inr ([], s)
      else if c = CHR 0x5C then
        (case s of
           [] \<Rightarrow> Inl ''unterminated character set''
         | e # s' \<Rightarrow>
             (case escape_tok e of
                Inl m \<Rightarrow> Inl m
              | Inr tok \<Rightarrow>
                  (case class_tokens False s' of
                     Inl m \<Rightarrow> Inl m
                   | Inr (ts, rest) \<Rightarrow> Inr (tok # ts, rest))))
      else
        (case class_tokens False s of
           Inl m \<Rightarrow> Inl m
         | Inr (ts, rest) \<Rightarrow> Inr ((if c = CHR ''-'' then CDash else CChar c) # ts, rest)))"

fun range_start :: "ctok \<Rightarrow> char option" where
  "range_start (CChar c) = Some c"
| "range_start CDash = Some CHR ''-''"
| "range_start (CSet neg rs) = None"

fun class_ranges :: "ctok list \<Rightarrow> string + (char \<times> char) list" where
  "class_ranges (a # CDash # b # ts) =
     (case (range_start a, range_start b) of
        (Some lo, Some hi) \<Rightarrow>
          (if char_le lo hi
           then (case class_ranges ts of Inl m \<Rightarrow> Inl m | Inr rs \<Rightarrow> Inr ((lo, hi) # rs))
           else Inl ''bad character range'')
      | _ \<Rightarrow> Inl ''bad character range'')"
| "class_ranges (CSet neg rs # ts) =
     (if neg then Inl ''bad character set''
      else (case class_ranges ts of Inl m \<Rightarrow> Inl m | Inr rs' \<Rightarrow> Inr (rs @ rs')))"
| "class_ranges (CChar c # ts) =
     (case class_ranges ts of Inl m \<Rightarrow> Inl m | Inr rs \<Rightarrow> Inr ((c, c) # rs))"
| "class_ranges (CDash # ts) =
     (case class_ranges ts of Inl m \<Rightarrow> Inl m | Inr rs \<Rightarrow> Inr ((CHR ''-'', CHR ''-'') # rs))"
| "class_ranges [] = Inr []"

fun nat_of_digits :: "nat \<Rightarrow> string \<Rightarrow> nat" where
  "nat_of_digits acc [] = acc"
| "nat_of_digits acc (c # s) = nat_of_digits (10 * acc + (of_char c - 48)) s"

text \<open>The text after an opening brace: a repetition \<^verbatim>\<open>m}\<close>, \<^verbatim>\<open>m,}\<close>, \<^verbatim>\<open>m,n}\<close>, if it is one.\<close>

definition parse_braces :: "string \<Rightarrow> ((nat \<times> nat option) \<times> string) option" where
  "parse_braces s =
     (case s of
        [] \<Rightarrow> None
      | c # s' \<Rightarrow>
          (if c = CHR ''}'' then None
           else
             (let lo = takeWhile is_digit s; s1 = dropWhile is_digit s;
                  comma = (s1 \<noteq> [] \<and> hd s1 = CHR '','');
                  s2 = (if comma then tl s1 else s1);
                  hi = (if comma then takeWhile is_digit s2 else lo);
                  s3 = (if comma then dropWhile is_digit s2 else s2)
              in (case s3 of
                    [] \<Rightarrow> None
                  | d # s4 \<Rightarrow>
                      (if d = CHR ''}''
                       then Some ((if lo = [] then 0 else nat_of_digits 0 lo,
                                   if hi = [] then None else Some (nat_of_digits 0 hi)), s4)
                       else None)))))"

definition parse_quant :: "string \<Rightarrow> ((nat \<times> nat option) \<times> string) option" where
  "parse_quant s =
     (case s of
        [] \<Rightarrow> None
      | c # s' \<Rightarrow>
          (if c = CHR ''*'' then Some ((0, None), s')
           else if c = CHR ''+'' then Some ((1, None), s')
           else if c = CHR ''?'' then Some ((0, Some 1), s')
           else if c = CHR ''{'' then parse_braces s'
           else None))"

definition parse_atom :: "char \<Rightarrow> string \<Rightarrow> string + (item \<times> string)" where
  "parse_atom c s =
     (if c = CHR ''^'' then Inr (Bol, s)
      else if c = CHR ''$'' then Inr (Eol, s)
      else if c = CHR ''.'' then Inr (Rep Dot 1 (Some 1), s)
      else if c = CHR ''['' then
        (let neg = (s \<noteq> [] \<and> hd s = CHR ''^''); s1 = (if neg then tl s else s)
         in case class_tokens True s1 of
              Inl m \<Rightarrow> Inl m
            | Inr (ts, rest) \<Rightarrow>
                (case class_ranges ts of
                   Inl m \<Rightarrow> Inl m
                 | Inr rs \<Rightarrow> Inr (Rep (Cls neg rs) 1 (Some 1), rest)))
      else if c = CHR 0x5C then
        (case s of
           [] \<Rightarrow> Inl ''bad escape (end of pattern)''
         | e # s' \<Rightarrow>
             (case escape_tok e of
                Inl m \<Rightarrow> Inl m
              | Inr (CSet neg rs) \<Rightarrow> Inr (Rep (Cls neg rs) 1 (Some 1), s')
              | Inr (CChar x) \<Rightarrow> Inr (Rep (Lit x) 1 (Some 1), s')
              | Inr CDash \<Rightarrow> Inr (Rep (Lit CHR ''-'') 1 (Some 1), s')))
      else if c = CHR ''*'' \<or> c = CHR ''+'' \<or> c = CHR ''?'' then Inl ''nothing to repeat''
      else if c = CHR ''('' \<or> c = CHR '')'' \<or> c = CHR ''|'' then Inl ''group or alternation''
      else Inr (Rep (Lit c) 1 (Some 1), s))"

text \<open>
  The pattern as a sequence of items. An item is an anchor, or an atom with the number
  of times it repeats. A repetition right after an anchor or at the start of the
  pattern has nothing to repeat, and two repetitions in a row are refused.
\<close>

lemma class_tokens_shorter:
  "class_tokens first s = Inr (ts, rest) \<Longrightarrow> length rest < length s"
proof (induction first s arbitrary: ts rest rule: class_tokens.induct)
  case (1 first)
  then show ?case by simp
next
  case (2 first c s)
  then show ?case
    by (auto split: if_splits list.splits sum.splits prod.splits) fastforce+
qed

lemma parse_atom_shorter:
  "parse_atom c s = Inr (it, rest) \<Longrightarrow> length rest \<le> length s"
  unfolding parse_atom_def Let_def
  by (auto split: if_splits list.splits sum.splits prod.splits ctok.splits
           dest!: class_tokens_shorter)

lemma parse_braces_shorter:
  "parse_braces s = Some (q, rest) \<Longrightarrow> length rest < length s"
proof -
  have a: "length (dropWhile is_digit xs) \<le> length xs" for xs
    by (rule length_dropWhile_le)
  have b: "length (dropWhile is_digit (tl (dropWhile is_digit s))) \<le> length s"
    using a [of "tl (dropWhile is_digit s)"] a [of s] by simp
  assume "parse_braces s = Some (q, rest)"
  then show ?thesis
    using a [of s] b unfolding parse_braces_def Let_def
    by (auto split: if_splits list.splits)
qed

lemma parse_quant_shorter:
  "parse_quant s = Some (q, rest) \<Longrightarrow> length rest < length s"
  unfolding parse_quant_def
  by (auto split: if_splits list.splits dest: parse_braces_shorter)

function parse_items :: "string \<Rightarrow> string + item list" where
  "parse_items [] = Inr []"
| "parse_items (c # s) =
     (case parse_atom c s of
        Inl m \<Rightarrow> Inl m
      | Inr (it, s1) \<Rightarrow>
          (case parse_quant s1 of
             None \<Rightarrow> (case parse_items s1 of Inl m \<Rightarrow> Inl m | Inr its \<Rightarrow> Inr (it # its))
           | Some ((lo, hi), s2) \<Rightarrow>
               (case it of
                  Rep a one one' \<Rightarrow>
                    (let s3 = (if s2 \<noteq> [] \<and> hd s2 = CHR ''?'' then tl s2 else s2)
                     in if (case hi of None \<Rightarrow> False | Some h \<Rightarrow> h < lo)
                        then Inl ''min repeat greater than max repeat''
                        else if parse_quant s3 \<noteq> None then Inl ''multiple repeat''
                        else (case parse_items s3 of
                                Inl m \<Rightarrow> Inl m
                              | Inr its \<Rightarrow> Inr (Rep a lo hi # its)))
                | _ \<Rightarrow> Inl ''nothing to repeat'')))"
  by pat_completeness auto
termination
proof (relation "measure length", goal_cases)
  case 1
  then show ?case by simp
next
  case (2 c s x y s1)
  then show ?case using parse_atom_shorter [of c s y s1] by simp
next
  case (3 c s x it s1 q x2 s2 lo hi a one one' s3)
  then have "length s1 \<le> length s" "length s2 < length s1"
    using parse_atom_shorter [of c s it s1] parse_quant_shorter [of s1 "(lo, hi)" s2] by simp_all
  moreover have "length s3 \<le> length s2"
    using 3 by (cases s2) (auto split: if_splits)
  ultimately show ?case by simp
qed

fun atom_ok :: "atom \<Rightarrow> char \<Rightarrow> bool" where
  "atom_ok (Lit c) x = (x = c)"
| "atom_ok Dot x = (x \<noteq> CHR 0x0A)"
| "atom_ok (Cls neg rs) x = (list_ex (\<lambda>(lo, hi). char_le lo x \<and> char_le x hi) rs \<noteq> neg)"

text \<open>
  Whether the items match a prefix of the text; \<open>at_start\<close> says that no character has
  been read yet. A repeated atom may take any number of characters between its bounds
  among those that match it at the front of the text.
\<close>

fun match_items :: "item list \<Rightarrow> bool \<Rightarrow> string \<Rightarrow> bool" where
  "match_items [] at_start s = True"
| "match_items (Bol # its) at_start s = (at_start \<and> match_items its at_start s)"
| "match_items (Eol # its) at_start s = ((s = [] \<or> s = [CHR 0x0A]) \<and> match_items its at_start s)"
| "match_items (Rep a lo hi # its) at_start s =
     (let n = length (takeWhile (atom_ok a) s);
          top = (case hi of None \<Rightarrow> n | Some h \<Rightarrow> min n h)
      in list_ex (\<lambda>k. match_items its (at_start \<and> k = 0) (drop k s)) [lo..<Suc top])"

text \<open>\<^verbatim>\<open>re.match(pattern, text)\<close>: whether there is a match, or the error of the pattern.\<close>

definition re_match :: "string \<Rightarrow> string \<Rightarrow> error + bool" where
  "re_match pattern text =
     (case parse_items pattern of
        Inl m \<Rightarrow> Inl (ReError m)
      | Inr its \<Rightarrow> Inr (match_items its True text))"

section \<open>The format checker\<close>

text \<open>
  \<^verbatim>\<open>str(value)\<close> of a fetched value: a text is itself, an integer is printed in
  decimal, a float with the digits of its decimal expansion (at least one after the
  point; the exponent form of very large and very small floats is not modelled).
\<close>

definition float_str :: "real \<Rightarrow> string" where
  "float_str x =
     (let a = \<bar>x\<bar>;
          d = (case find (\<lambda>d. frac (a * 10 ^ d) = 0) [1..<17] of Some d \<Rightarrow> d | None \<Rightarrow> 17);
          fs = dec_nat (nat \<lfloor>frac a * 10 ^ d\<rfloor>)
      in (if x < 0 then [CHR ''-''] else []) @ dec_nat (nat \<lfloor>a\<rfloor>) @ [CHR ''.'']
         @ replicate (d - length fs) CHR ''0'' @ fs)"

fun py_str :: "cell \<Rightarrow> string" where
  "py_str Null = ''None''"
| "py_str (IntV i) = dec_int i"
| "py_str (RealV x) = float_str x"
| "py_str (TextV s) = s"

text \<open>
  \<open>pattern\<close> is \<^verbatim>\<open>config.get('pattern')\<close>: \<open>None\<close> when the key is absent, and then
  \<^verbatim>\<open>re.match\<close> raises \<^verbatim>\<open>TypeError\<close> at the first value. With no value to check the
  pattern is never used.
\<close>

definition check_format ::
  "database \<Rightarrow> string \<Rightarrow> string \<Rightarrow> string option \<Rightarrow> real \<Rightarrow> error + check_result" where
  "check_format db table_name column_name pattern threshold =
     (case validate_table_name db (Some table_name) of
        Inl e \<Rightarrow> Inl e
      | Inr t \<Rightarrow>
          (case column_values t column_name column_name of
             Inl e \<Rightarrow> Inl e
           | Inr vs \<Rightarrow>
               (let vals = filter not_null_nor_empty vs in
                if vals = []
                then Inr \<lparr> metric_value = 0, status = PASS, details = ''No values to check'' \<rparr>
                else
                  (case pattern of
                     None \<Rightarrow> Inl (TypeError ''first argument must be string or compiled pattern'')
                   | Some p \<Rightarrow>
                       (case parse_items p of
                          Inl m \<Rightarrow> Inl (ReError m)
                        | Inr its \<Rightarrow>
                            (let invalid_count =
                                   length (filter (\<lambda>v. \<not> match_items its True (py_str v)) vals);
                                 invalid_percentage = real invalid_count / real (length vals) * 100
                             in Inr \<lparr> metric_value = invalid_percentage,
                                      status = verdict invalid_percentage threshold,
                                      details = dec_nat invalid_count @ ''/'' @ dec_nat (length vals)
                                                @ '' invalid format ('' @ fmt_2f invalid_percentage
                                                @ ''%)'' \<rparr>))))))"

section \<open>The rule engine\<close>

text \<open>
  A row of \<^verbatim>\<open>quality_rules\<close>. \<open>rule_config\<close> is the JSON text of the row after
  \<^verbatim>\<open>json.loads(rule_config) if rule_config else {}\<close>: the message of the
  \<^verbatim>\<open>JSONDecodeError\<close> when the text is not JSON, and otherwise what
  \<^verbatim>\<open>config.get\<close> gives for each key the engine reads (\<open>None\<close> for an absent key).
\<close>

record config =
  pattern :: "string option"
  min_key :: "real option"
  max_key :: "real option"
  reference_table :: "string option"
  reference_column :: "string option"

record rule =
  rule_id :: int
  table_name :: string
  column_name :: string
  rule_type :: string
  rule_config :: "string + config"
  threshold_value :: real
  is_active :: bool

text \<open>
  A row inserted into \<^verbatim>\<open>quality_results\<close> (without its key and its \<^verbatim>\<open>check_date\<close>,
  the time of the insertion), and an entry of the list that \<^verbatim>\<open>run_quality_checks\<close>
  returns.
\<close>

record stored_result =
  s_rule_id :: int
  s_table_name :: string
  s_column_name :: string
  s_metric_value :: real
  s_threshold_value :: real
  s_status :: status
  s_details :: string

record returned_result =
  r_rule_id :: int
  r_table_name :: string
  r_column_name :: string
  r_rule_type :: string
  r_metric_value :: real
  r_threshold_value :: real
  r_status :: status
  r_details :: string

text \<open>
  The \<^verbatim>\<open>if/elif\<close> chain on \<^verbatim>\<open>rule_type\<close>: the checker's result, the exception it
  raises, or \<open>None\<close> where the chain ends in \<^verbatim>\<open>continue\<close>.
\<close>

definition check_rule :: "database \<Rightarrow> rule \<Rightarrow> config \<Rightarrow> (error + check_result) option" where
  "check_rule db r cfg =
     (if rule_type r = ''null_check''
      then Some (check_nulls db (table_name r) (column_name r) (threshold_value r))
      else if rule_type r = ''format_check''
      then Some (check_format db (table_name r) (column_name r) (pattern cfg) (threshold_value r))
      else if rule_type r = ''range_check''
      then Some (check_range db (table_name r) (column_name r) (min_key cfg) (max_key cfg)
                   (threshold_value r))
      else if rule_type r = ''uniqueness_check''
      then Some (check_uniqueness db (table_name r) (column_name r) (threshold_value r))
      else if rule_type r = ''foreign_key_check''
      then Some (check_foreign_key db (table_name r) (column_name r) (reference_table cfg)
                   (reference_column cfg) (threshold_value r))
      else None)"

definition stored_of :: "rule \<Rightarrow> check_result \<Rightarrow> stored_result" where
  "stored_of r res =
     \<lparr> s_rule_id = rule_id r, s_table_name = table_name r, s_column_name = column_name r,
       s_metric_value = metric_value res, s_threshold_value = threshold_value r,
       s_status = status res, s_details = details res \<rparr>"

definition returned_of :: "rule \<Rightarrow> check_result \<Rightarrow> returned_result" where
  "returned_of r res =
     \<lparr> r_rule_id = rule_id r, r_table_name = table_name r, r_column_name = column_name r,
       r_rule_type = rule_type r, r_metric_value = metric_value res,
       r_threshold_value = threshold_value r, r_status = status res, r_details = details res \<rparr>"

text \<open>The row of the \<^verbatim>\<open>except\<close> branch.\<close>

definition stored_error :: "rule \<Rightarrow> error \<Rightarrow> stored_result" where
  "stored_error r e =
     \<lparr> s_rule_id = rule_id r, s_table_name = table_name r, s_column_name = column_name r,
       s_metric_value = 0, s_threshold_value = threshold_value r,
       s_status = ERROR, s_details = str_of_error e \<rparr>"

text \<open>
  The loop over the fetched rules. The state is the rows inserted so far and the list
  \<^verbatim>\<open>results\<close>. \<^verbatim>\<open>json.loads\<close> stands before the \<^verbatim>\<open>try\<close>: its exception leaves the
  loop and the function.
\<close>

fun run_rules ::
  "database \<Rightarrow> rule list \<Rightarrow> stored_result list \<times> returned_result list
     \<Rightarrow> error + stored_result list \<times> returned_result list" where
  "run_rules db [] st = Inr st"
| "run_rules db (r # rs) (inserted, results) =
     (case rule_config r of
        Inl m \<Rightarrow> Inl (JSONDecodeError m)
      | Inr cfg \<Rightarrow>
          (case check_rule db r cfg of
             None \<Rightarrow> run_rules db rs (inserted, results)
           | Some (Inr res) \<Rightarrow>
               run_rules db rs (inserted @ [stored_of r res], results @ [returned_of r res])
           | Some (Inl e) \<Rightarrow> run_rules db rs (inserted @ [stored_error r e], results)))"

text \<open>
  The query for the active rules. \<^verbatim>\<open>quality_rules\<close> has \<^verbatim>\<open>rule_id INTEGER PRIMARY KEY\<close>:
  the table is stored by this key, no two rows share it, and the query, a scan of the
  table with no \<^verbatim>\<open>ORDER BY\<close>, delivers the rows in ascending order of
  \<^verbatim>\<open>rule_id\<close>. \<open>rules\<close> holds the rows of the table in the order of their insertion.
\<close>

definition active_rules :: "rule list \<Rightarrow> rule list" where
  "active_rules rules = sort_key rule_id (filter is_active rules)"

text \<open>
  \<^verbatim>\<open>run_quality_checks\<close>: \<open>rules\<close> is the table \<^verbatim>\<open>quality_rules\<close>, \<open>history\<close> the
  table \<^verbatim>\<open>quality_results\<close> before the call. The result is the table after the call
  and what the caller gets: the list of results, or the exception that ended the run
  before \<^verbatim>\<open>commit\<close>, which leaves the table as it was.
\<close>

definition run_quality_checks ::
  "database \<Rightarrow> stored_result list \<Rightarrow> rule list
     \<Rightarrow> stored_result list \<times> (error + returned_result list)" where
  "run_quality_checks db history rules =
     (case run_rules db (active_rules rules) ([], []) of
        Inl e \<Rightarrow> (history, Inl e)
      | Inr (inserted, results) \<Rightarrow> (history @ inserted, Inr results))"

section \<open>The profiler\<close>

text \<open>
  The aggregates of the profiling queries. \<^verbatim>\<open>AVG\<close> and the arithmetic of the variance
  query read a number from every value that is not NULL; a text that is not a number
  counts as 0 (SQLite reads a numeric prefix when a text has one: such cells are left
  out of the model). \<^verbatim>\<open>MIN\<close> and \<^verbatim>\<open>MAX\<close> follow the order of the storage classes:
  numbers by value, then texts byte by byte. An aggregate over no value is NULL.
\<close>

fun sql_real :: "cell \<Rightarrow> real" where
  "sql_real Null = 0"
| "sql_real (IntV i) = real_of_int i"
| "sql_real (RealV x) = x"
| "sql_real (TextV s) = 0"

definition sql_avg :: "real list \<Rightarrow> real option" where
  "sql_avg xs = (if xs = [] then None else Some (sum_list xs / real (length xs)))"

fun str_less :: "string \<Rightarrow> string \<Rightarrow> bool" where
  "str_less [] [] = False"
| "str_less [] (y # ys) = True"
| "str_less (x # xs) [] = False"
| "str_less (x # xs) (y # ys) =
     ((of_char x :: nat) < of_char y \<or> (x = y \<and> str_less xs ys))"

definition cell_less :: "cell \<Rightarrow> cell \<Rightarrow> bool" where
  "cell_less a b =
     (case (a, b) of
        (TextV s, TextV t) \<Rightarrow> str_less s t
      | (TextV s, _) \<Rightarrow> False
      | (_, TextV t) \<Rightarrow> True
      | _ \<Rightarrow> sql_real a < sql_real b)"

definition sql_min :: "cell list \<Rightarrow> cell" where
  "sql_min vs =
     (case filter not_null vs of
        [] \<Rightarrow> Null
      | x # xs \<Rightarrow> fold (\<lambda>c m. if cell_less c m then c else m) xs x)"

definition sql_max :: "cell list \<Rightarrow> cell" where
  "sql_max vs =
     (case filter not_null vs of
        [] \<Rightarrow> Null
      | x # xs \<Rightarrow> fold (\<lambda>c m. if cell_less m c then c else m) xs x)"

text \<open>\<^verbatim>\<open>LENGTH(c)\<close>: the number of characters of the value written as text.\<close>

definition sql_length :: "cell \<Rightarrow> nat" where
  "sql_length c = length (py_str c)"

text \<open>
  \<^verbatim>\<open>variance ** 0.5\<close>: Python's power of a negative float with a fractional exponent
  is a complex number, not a float.
\<close>

datatype pynum = PyNum real | PyComplex

definition pow_half :: "real \<Rightarrow> pynum" where
  "pow_half v = (if v < 0 then PyComplex else PyNum (sqrt v))"

record column_profile =
  p_column_name :: string
  p_data_type :: string
  total_count :: nat
  null_count :: nat
  unique_count :: nat
  min_value :: cell
  max_value :: cell
  avg_value :: "real option"
  std_dev :: "pynum option"
  null_percentage :: real
  unique_percentage :: real

text \<open>
  The variance query with the average as its parameter, and
  \<^verbatim>\<open>std_dev = variance ** 0.5 if variance else 0\<close>: a variance that is \<^verbatim>\<open>None\<close> or
  zero is falsy.
\<close>

definition variance_of :: "cell list \<Rightarrow> real \<Rightarrow> real option" where
  "variance_of vs avg =
     sql_avg (map (\<lambda>c. (sql_real c - avg) * (sql_real c - avg)) (filter not_null vs))"

definition std_dev_of :: "real option \<Rightarrow> pynum" where
  "std_dev_of variance =
     (case variance of
        None \<Rightarrow> PyNum 0
      | Some v \<Rightarrow> (if v \<noteq> 0 then pow_half v else PyNum 0))"

text \<open>The body of the loop of \<^verbatim>\<open>profile_data\<close> for the column at position \<open>i\<close>.\<close>

definition profile_column :: "table \<Rightarrow> nat \<Rightarrow> string \<Rightarrow> string \<Rightarrow> column_profile" where
  "profile_column t i cname data_type =
     (let vs = map (\<lambda>r. cell_at r i) (rows t);
          total = length (rows t);
          nulls = length (filter null_or_empty vs);
          uniq = count_distinct vs;
          numeric = (data_type \<in> set [''INTEGER'', ''REAL'', ''DECIMAL'']);
          lens = map (\<lambda>c. IntV (int (sql_length c))) (filter not_null vs);
          avg = (if numeric then sql_avg (map sql_real (filter not_null vs))
                 else if data_type = ''TEXT'' then sql_avg (map sql_real lens)
                 else None)
      in \<lparr> p_column_name = cname,
           p_data_type = data_type,
           total_count = total,
           null_count = nulls,
           unique_count = uniq,
           min_value = (if numeric then sql_min vs
                        else if data_type = ''TEXT'' then sql_min lens else Null),
           max_value = (if numeric then sql_max vs
                        else if data_type = ''TEXT'' then sql_max lens else Null),
           avg_value = avg,
           std_dev = (if numeric
                      then (case avg of None \<Rightarrow> None | Some m \<Rightarrow> Some (std_dev_of (variance_of vs m)))
                      else None),
           null_percentage = percentage nulls total,
           unique_percentage = percentage uniq total \<rparr>)"

definition profile_data :: "database \<Rightarrow> string \<Rightarrow> error + column_profile list" where
  "profile_data db tname =
     (case validate_table_name db (Some tname) of
        Inl e \<Rightarrow> Inl e
      | Inr t \<Rightarrow>
          Inr (map (\<lambda>(i, (cname, data_type)). profile_column t i cname data_type)
                 (enumerate 0 (columns t))))"

section \<open>Denominators\<close>

text \<open>
  The count a checker divides by: all rows for the null check, the values that are
  neither NULL nor empty for the format check, the values that are not NULL for the
  range, uniqueness and foreign key checks.
\<close>

definition denominator :: "database \<Rightarrow> rule \<Rightarrow> nat option" where
  "denominator db r =
     (case map_of db (table_name r) of
        None \<Rightarrow> None
      | Some t \<Rightarrow>
          (case column_values t (column_name r) (column_name r) of
             Inl e \<Rightarrow> None
           | Inr vs \<Rightarrow>
               Some (if rule_type r = ''null_check'' then length (rows t)
                     else if rule_type r = ''format_check'' then length (filter not_null_nor_empty vs)
                     else length (filter not_null vs))))"

section \<open>Notions used in the properties\<close>

text \<open>The rule kinds that the \<^verbatim>\<open>if/elif\<close> chain of the engine knows.\<close>

definition known_kinds :: "string list" where
  "known_kinds = [''null_check'', ''format_check'', ''range_check'', ''uniqueness_check'',
                  ''foreign_key_check'']"

text \<open>The condition of the counting query of the range checker, for the bounds given.\<close>

definition out_of_range :: "real option \<Rightarrow> real option \<Rightarrow> cell \<Rightarrow> bool" where
  "out_of_range lo hi c =
     ((case lo of None \<Rightarrow> False | Some l \<Rightarrow> sql_lt c l)
      \<or> (case hi of None \<Rightarrow> False | Some h \<Rightarrow> sql_gt c h))"

text \<open>Whether the configuration of a rule parses and its checker returns a result.\<close>

definition succeeds :: "database \<Rightarrow> rule \<Rightarrow> bool" where
  "succeeds db r =
     (case rule_config r of
        Inl m \<Rightarrow> False
      | Inr cfg \<Rightarrow> (case check_rule db r cfg of Some (Inr res) \<Rightarrow> True | _ \<Rightarrow> False))"

text \<open>The rule ids of the returned list (none when the run ended in an exception).\<close>

definition returned_ids :: "error + returned_result list \<Rightarrow> int list" where
  "returned_ids out = (case out of Inl e \<Rightarrow> [] | Inr results \<Rightarrow> map r_rule_id results)"

text \<open>
  The values of the column at position \<open>i\<close>, and the numbers that the aggregates read
  from those that are not NULL.
\<close>

definition column_values_at :: "table \<Rightarrow> nat \<Rightarrow> cell list" where
  "column_values_at t i = map (\<lambda>r. cell_at r i) (rows t)"

definition column_numbers :: "table \<Rightarrow> nat \<Rightarrow> real list" where
  "column_numbers t i = map sql_real (filter not_null (column_values_at t i))"

text \<open>
  The standard deviation in the words of the specification: the variance is the mean
  of the squared distances from the mean, clamped to 0 before the square root.
\<close>

definition population_variance :: "real list \<Rightarrow> real" where
  "population_variance xs =
     (let mean = sum_list xs / real (length xs)
      in sum_list (map (\<lambda>x. (x - mean)\<^sup>2) xs) / real (length xs))"

definition std_dev_spec :: "real list \<Rightarrow> real" where
  "std_dev_spec xs = sqrt (max 0 (population_variance xs))"

section \<open>Example data\<close>

text \<open>
  A small database: the codes \<^verbatim>\<open>["123", "12a", "", NULL]\<close>, the letters
  \<^verbatim>\<open>[a, a, a, b, c]\<close>, a table whose only value is the empty string, the ages
  \<^verbatim>\<open>[25, 150, -5, 40]\<close>, and a table with no row.
\<close>

definition codes_table :: table where
  "codes_table = \<lparr> columns = [(''code'', ''TEXT'')],
                    rows = [[TextV ''123''], [TextV ''12a''], [TextV []], [Null]] \<rparr>"

definition letters_table :: table where
  "letters_table = \<lparr> columns = [(''letter'', ''TEXT'')],
                      rows = [[TextV ''a''], [TextV ''a''], [TextV ''a''], [TextV ''b''],
                              [TextV ''c'']] \<rparr>"

definition blank_table :: table where
  "blank_table = \<lparr> columns = [(''note'', ''TEXT'')], rows = [[TextV []]] \<rparr>"

definition ages_table :: table where
  "ages_table = \<lparr> columns = [(''age'', ''INTEGER'')],
                   rows = [[IntV 25], [IntV 150], [IntV (- 5)], [IntV 40]] \<rparr>"

definition empty_table :: table where
  "empty_table = \<lparr> columns = [(''item'', ''TEXT'')], rows = [] \<rparr>"

definition sample_db :: database where
  "sample_db = [(''codes'', codes_table), (''letters'', letters_table),
                (''blank'', blank_table), (''ages'', ages_table), (''empty'', empty_table)]"

definition no_config :: config where
  "no_config = \<lparr> pattern = None, min_key = None, max_key = None,
                  reference_table = None, reference_column = None \<rparr>"

text \<open>An active rule whose configuration is valid JSON.\<close>

definition mk_rule :: "int \<Rightarrow> string \<Rightarrow> string \<Rightarrow> string \<Rightarrow> config \<Rightarrow> real \<Rightarrow> rule" where
  "mk_rule i t c kind cfg thr =
     \<lparr> rule_id = i, table_name = t, column_name = c, rule_type = kind,
       rule_config = Inr cfg, threshold_value = thr, is_active = True \<rparr>"

text \<open>
  Rule tables: three rules inserted out of the order of their ids; a rule on a table
  that does not exist before a rule that passes; the same with a rule of an unknown
  kind between them; format and foreign key rules whose configuration has no key.
\<close>

definition unordered_rules :: "rule list" where
  "unordered_rules =
     [mk_rule 3 ''codes'' ''code'' ''null_check'' no_config 5,
      mk_rule 1 ''ages'' ''age'' ''null_check'' no_config 5,
      mk_rule 2 ''letters'' ''letter'' ''uniqueness_check'' no_config 5]"

definition raising_rules :: "rule list" where
  "raising_rules =
     [mk_rule 1 ''nowhere'' ''code'' ''null_check'' no_config 5,
      mk_rule 2 ''ages'' ''age'' ''null_check'' no_config 5]"

definition mixed_rules :: "rule list" where
  "mixed_rules =
     [mk_rule 1 ''nowhere'' ''code'' ''null_check'' no_config 5,
      mk_rule 2 ''codes'' ''code'' ''freshness_check'' no_config 5,
      mk_rule 3 ''ages'' ''age'' ''null_check'' no_config 5]"


section \<open>Counting lemmas\<close>

lemma percentage_bounds:
  "part \<le> whole \<Longrightarrow> 0 \<le> percentage part whole \<and> percentage part whole \<le> 100"
  unfolding percentage_def by (auto simp: field_simps)

lemma count_distinct_le: "count_distinct vs \<le> length (filter not_null vs)"
  unfolding count_distinct_def
  by (metis length_map length_remdups_leq)

lemma left_join_orphans:
  "length (filter (\<lambda>(x, y). x \<noteq> Null \<and> y = Null) (left_join ts rs))
     \<le> length (filter not_null ts)"
proof (induction ts)
  case Nil
  then show ?case by (simp add: left_join_def)
next
  case (Cons x ts)
  have matched: "filter (\<lambda>(a, y). a \<noteq> Null \<and> y = Null) (map (Pair x) (filter (sql_eq x) rs)) = []"
    by (auto simp: filter_empty_conv sql_eq_def)
  from Cons show ?case
    by (auto simp: left_join_def Let_def not_null_def matched)
qed

lemma orphans_le: "orphans ts rs \<le> length (filter not_null ts)"
  unfolding orphans_def by (rule left_join_orphans)

lemma filter_implies_le:
  "(\<And>x. P x \<Longrightarrow> Q x) \<Longrightarrow> length (filter P xs) \<le> length (filter Q xs)"
  by (induction xs) auto

lemma sql_lt_not_null: "sql_lt c v \<Longrightarrow> not_null c"
  by (cases c) (simp_all add: not_null_def)

lemma sql_gt_not_null: "sql_gt c v \<Longrightarrow> not_null c"
  by (cases c) (simp_all add: not_null_def)

lemma out_of_range_le:
  "length (filter (out_of_range lo hi) vs) \<le> length (filter not_null vs)"
  by (rule filter_implies_le)
     (auto simp: out_of_range_def split: option.splits dest: sql_lt_not_null sql_gt_not_null)

lemma validate_table_name_Some:
  "validate_table_name db (Some t) = Inr tb \<longleftrightarrow> map_of db t = Some tb"
  unfolding validate_table_name_def by (auto split: option.splits)

lemma column_values_query:
  "column_values tb q c = Inr vs \<Longrightarrow> column_values tb q' c = Inr vs"
  unfolding column_values_def by (auto split: option.splits)

lemma column_values_length:
  "column_values tb q c = Inr vs \<Longrightarrow> length vs = length (rows tb)"
  unfolding column_values_def by (auto split: option.splits)

section \<open>What each checker returns\<close>

lemma check_nulls_result:
  assumes "check_nulls db t c thr = Inr res"
  shows "\<exists>tb vs. validate_table_name db (Some t) = Inr tb \<and> column_values tb c c = Inr vs \<and>
           res = \<lparr> metric_value = percentage (length (filter null_or_empty vs)) (length (rows tb)),
                   status = verdict (percentage (length (filter null_or_empty vs)) (length (rows tb))) thr,
                   details = dec_nat (length (filter null_or_empty vs)) @ ''/''
                             @ dec_nat (length (rows tb)) @ '' null values (''
                             @ fmt_2f (percentage (length (filter null_or_empty vs)) (length (rows tb)))
                             @ ''%)'' \<rparr>"
  using assms unfolding check_nulls_def Let_def
  by (auto split: sum.splits)

lemma check_range_result:
  assumes "check_range db t c lo hi thr = Inr res"
  shows "\<exists>tb vs. validate_table_name db (Some t) = Inr tb \<and> column_values tb c c = Inr vs \<and>
           (if lo = None \<and> hi = None
            then res = \<lparr> metric_value = 0, status = PASS, details = ''No range specified'' \<rparr>
            else res = \<lparr> metric_value = percentage (length (filter (out_of_range lo hi) vs))
                                           (length (filter not_null vs)),
                          status = verdict (percentage (length (filter (out_of_range lo hi) vs))
                                              (length (filter not_null vs))) thr,
                          details = dec_nat (length (filter (out_of_range lo hi) vs)) @ ''/''
                                    @ dec_nat (length (filter not_null vs)) @ '' out of range (''
                                    @ fmt_2f (percentage (length (filter (out_of_range lo hi) vs))
                                                (length (filter not_null vs)))
                                    @ ''%)'' \<rparr>)"
  using assms unfolding check_range_def Let_def out_of_range_def
  by (auto split: sum.splits option.splits)

lemma check_uniqueness_result:
  assumes "check_uniqueness db t c thr = Inr res"
  shows "\<exists>tb vs. validate_table_name db (Some t) = Inr tb \<and> column_values tb c c = Inr vs \<and>
           res = \<lparr> metric_value = percentage (length (filter not_null vs) - count_distinct vs)
                                    (length (filter not_null vs)),
                   status = verdict (percentage (length (filter not_null vs) - count_distinct vs)
                                       (length (filter not_null vs))) thr,
                   details = dec_nat (length (filter not_null vs) - count_distinct vs)
                             @ '' duplicates (''
                             @ fmt_2f (percentage (length (filter not_null vs) - count_distinct vs)
                                         (length (filter not_null vs)))
                             @ ''%)'' \<rparr>"
  using assms unfolding check_uniqueness_def Let_def
  by (auto split: sum.splits)

lemma check_foreign_key_result:
  assumes "check_foreign_key db t c rt rc thr = Inr res"
  shows "\<exists>tb ts rs. validate_table_name db (Some t) = Inr tb
           \<and> column_values tb (''t.'' @ c) c = Inr ts \<and>
           res = \<lparr> metric_value = percentage (orphans ts rs) (length (filter not_null ts)),
                   status = verdict (percentage (orphans ts rs) (length (filter not_null ts))) thr,
                   details = dec_nat (orphans ts rs) @ '' orphan records (''
                             @ fmt_2f (percentage (orphans ts rs) (length (filter not_null ts)))
                             @ ''%)'' \<rparr>"
  using assms unfolding check_foreign_key_def Let_def
  by (auto split: sum.splits option.splits)

lemma check_format_result:
  assumes "check_format db t c p thr = Inr res"
  shows "\<exists>tb vs n. validate_table_name db (Some t) = Inr tb \<and> column_values tb c c = Inr vs \<and>
           n \<le> length (filter not_null_nor_empty vs) \<and>
           (if filter not_null_nor_empty vs = []
            then res = \<lparr> metric_value = 0, status = PASS, details = ''No values to check'' \<rparr>
            else res = \<lparr> metric_value = percentage n (length (filter not_null_nor_empty vs)),
                          status = verdict (percentage n (length (filter not_null_nor_empty vs))) thr,
                          details = dec_nat n @ ''/''
                                    @ dec_nat (length (filter not_null_nor_empty vs))
                                    @ '' invalid format (''
                                    @ fmt_2f (percentage n (length (filter not_null_nor_empty vs)))
                                    @ ''%)'' \<rparr>)"
proof -
  from assms obtain tb where v: "validate_table_name db (Some t) = Inr tb"
    unfolding check_format_def by (auto split: sum.splits)
  from assms v obtain vs where c: "column_values tb c c = Inr vs"
    unfolding check_format_def by (auto split: sum.splits)
  let ?vals = "filter not_null_nor_empty vs"
  show ?thesis
  proof (cases "?vals = []")
    case True
    with assms v c have "res = \<lparr> metric_value = 0, status = PASS, details = ''No values to check'' \<rparr>"
      unfolding check_format_def by auto
    with True v c show ?thesis
      by (intro exI [of _ tb] exI [of _ vs] exI [of _ 0] conjI) simp_all
  next
    case False
    with assms v c obtain its where
      r: "res = \<lparr> metric_value = real (length (filter (\<lambda>v. \<not> match_items its True (py_str v)) ?vals))
                                  / real (length ?vals) * 100,
                  status = verdict (real (length (filter (\<lambda>v. \<not> match_items its True (py_str v)) ?vals))
                                    / real (length ?vals) * 100) thr,
                  details = dec_nat (length (filter (\<lambda>v. \<not> match_items its True (py_str v)) ?vals))
                            @ ''/'' @ dec_nat (length ?vals) @ '' invalid format (''
                            @ fmt_2f (real (length (filter (\<lambda>v. \<not> match_items its True (py_str v)) ?vals))
                                      / real (length ?vals) * 100)
                            @ ''%)'' \<rparr>"
      unfolding check_format_def Let_def by (auto split: sum.splits option.splits)
    let ?n = "length (filter (\<lambda>v. \<not> match_items its True (py_str v)) ?vals)"
    have p: "real ?n / real (length ?vals) * 100 = percentage ?n (length ?vals)"
      using False by (simp add: percentage_def)
    have "?n \<le> length ?vals" by (rule length_filter_le)
    with r False v c show ?thesis
      unfolding p by (intro exI [of _ tb] exI [of _ vs] exI [of _ ?n] conjI) simp_all
  qed
qed

lemma check_rule_None: "check_rule db r cfg = None \<longleftrightarrow> rule_type r \<notin> set known_kinds"
  unfolding check_rule_def known_kinds_def by auto

text \<open>
  Every result is either one of the two fixed results (no value to check, no range
  given) or a percentage of a count within its denominator, compared with the threshold.
\<close>

lemma check_rule_result:
  assumes "check_rule db r cfg = Some (Inr res)"
  shows "(metric_value res = 0 \<and> status res = PASS)
         \<or> (\<exists>n d. n \<le> d \<and> metric_value res = percentage n d
                   \<and> status res = verdict (percentage n d) (threshold_value r))"
proof -
  consider (nulls) "check_nulls db (table_name r) (column_name r) (threshold_value r) = Inr res"
    | (format) "check_format db (table_name r) (column_name r) (pattern cfg) (threshold_value r) = Inr res"
    | (range) "check_range db (table_name r) (column_name r) (min_key cfg) (max_key cfg)
                 (threshold_value r) = Inr res"
    | (uniq) "check_uniqueness db (table_name r) (column_name r) (threshold_value r) = Inr res"
    | (fk) "check_foreign_key db (table_name r) (column_name r) (reference_table cfg)
              (reference_column cfg) (threshold_value r) = Inr res"
    using assms unfolding check_rule_def by (auto split: if_splits)
  then show ?thesis
  proof cases
    case nulls
    from check_nulls_result [OF this] obtain tb vs where
      "column_values tb (column_name r) (column_name r) = Inr vs"
      "metric_value res = percentage (length (filter null_or_empty vs)) (length (rows tb))"
      "status res = verdict (percentage (length (filter null_or_empty vs)) (length (rows tb)))
                      (threshold_value r)"
      by auto
    moreover from this have "length (filter null_or_empty vs) \<le> length (rows tb)"
      using column_values_length [of tb] length_filter_le [of null_or_empty vs] by simp
    ultimately show ?thesis by blast
  next
    case format
    from check_format_result [OF this] obtain vs n where
      n: "n \<le> length (filter not_null_nor_empty vs)" and
      g: "if filter not_null_nor_empty vs = []
          then res = \<lparr> metric_value = 0, status = PASS, details = ''No values to check'' \<rparr>
          else res = \<lparr> metric_value = percentage n (length (filter not_null_nor_empty vs)),
                        status = verdict (percentage n (length (filter not_null_nor_empty vs)))
                                   (threshold_value r),
                        details = dec_nat n @ ''/''
                                  @ dec_nat (length (filter not_null_nor_empty vs))
                                  @ '' invalid format (''
                                  @ fmt_2f (percentage n (length (filter not_null_nor_empty vs)))
                                  @ ''%)'' \<rparr>"
      by blast
    have f: "if filter not_null_nor_empty vs = []
          then metric_value res = 0 \<and> status res = PASS
          else metric_value res = percentage n (length (filter not_null_nor_empty vs))
               \<and> status res = verdict (percentage n (length (filter not_null_nor_empty vs)))
                                  (threshold_value r)"
      using g by (simp split: if_splits)
    show ?thesis
    proof (cases "filter not_null_nor_empty vs = []")
      case True
      with f show ?thesis by simp
    next
      case False
      with f n show ?thesis by auto
    qed
  next
    case range
    from check_range_result [OF this] obtain vs where
      "if min_key cfg = None \<and> max_key cfg = None
       then metric_value res = 0 \<and> status res = PASS
       else metric_value res = percentage (length (filter (out_of_range (min_key cfg) (max_key cfg)) vs))
                                 (length (filter not_null vs))
            \<and> status res = verdict (percentage (length (filter (out_of_range (min_key cfg) (max_key cfg)) vs))
                                      (length (filter not_null vs))) (threshold_value r)"
      by (auto split: if_splits)
    then show ?thesis
      using out_of_range_le [of "min_key cfg" "max_key cfg" vs] by (auto split: if_splits)
  next
    case uniq
    from check_uniqueness_result [OF this] obtain vs where
      "metric_value res = percentage (length (filter not_null vs) - count_distinct vs)
                            (length (filter not_null vs))"
      "status res = verdict (percentage (length (filter not_null vs) - count_distinct vs)
                               (length (filter not_null vs))) (threshold_value r)"
      by auto
    moreover have "length (filter not_null vs) - count_distinct vs \<le> length (filter not_null vs)"
      by simp
    ultimately show ?thesis by blast
  next
    case fk
    from check_foreign_key_result [OF this] obtain ts rs where
      "metric_value res = percentage (orphans ts rs) (length (filter not_null ts))"
      "status res = verdict (percentage (orphans ts rs) (length (filter not_null ts)))
                      (threshold_value r)"
      by auto
    then show ?thesis using orphans_le [of ts rs] by blast
  qed
qed

section \<open>Properties of the checkers\<close>

text \<open>
  C7. For every checker and every dataset, the metric value of a result lies in the
  closed interval from 0 to 100: the count of violations never exceeds the denominator.
\<close>

theorem metric_value_within_0_100:
  assumes "check_rule db r cfg = Some (Inr res)"
  shows "0 \<le> metric_value res \<and> metric_value res \<le> 100"
  using check_rule_result [OF assms] percentage_bounds by auto

theorem metric_value_within_0_100_witness:
  "check_rule sample_db
      (mk_rule 1 ''ages'' ''age'' ''range_check''
         (no_config \<lparr> min_key := Some 0, max_key := Some 120 \<rparr>) 5)
      (no_config \<lparr> min_key := Some 0, max_key := Some 120 \<rparr>)
     = Some (Inr \<lparr> metric_value = 50, status = FAIL, details = ''2/4 out of range (50.00%)'' \<rparr>)
   \<and> (0::real) \<le> 50 \<and> (50::real) \<le> 100"
proof -
  have h: "check_rule sample_db
      (mk_rule 1 ''ages'' ''age'' ''range_check''
         (no_config \<lparr> min_key := Some 0, max_key := Some 120 \<rparr>) 5)
      (no_config \<lparr> min_key := Some 0, max_key := Some 120 \<rparr>)
     = Some (Inr \<lparr> metric_value = 50, status = FAIL, details = ''2/4 out of range (50.00%)'' \<rparr>)"
    by code_simp
  from metric_value_within_0_100 [OF h] h show ?thesis by simp
qed

lemma verdict_zero: "0 \<le> thr \<Longrightarrow> verdict 0 thr = PASS"
  by (simp add: verdict_def)

lemma percentage_of_none: "d = 0 \<Longrightarrow> n \<le> d \<Longrightarrow> percentage n d = 0"
  by (simp add: percentage_def)

text \<open>
  C1. For every result of a checker whose computation succeeds, the status is Pass if
  and only if the metric value is at most the threshold, and Fail otherwise; the status
  of such a result is never Error, the status that the engine writes when the checker
  raises. The threshold is a percentage (0 to 100 in the data model), hence not negative.
\<close>

theorem status_follows_threshold:
  assumes "check_rule db r cfg = Some (Inr res)" and "0 \<le> threshold_value r"
  shows "(status res = PASS \<longleftrightarrow> metric_value res \<le> threshold_value r)
         \<and> (status res = FAIL \<longleftrightarrow> \<not> metric_value res \<le> threshold_value r)
         \<and> status res \<noteq> ERROR
         \<and> s_status (stored_of r res) = status res
         \<and> r_status (returned_of r res) = status res"
proof -
  from check_rule_result [OF assms(1)] assms(2)
  have "status res = verdict (metric_value res) (threshold_value r)"
    by (auto simp: verdict_def)
  then show ?thesis
    by (simp add: verdict_def stored_of_def returned_of_def)
qed

theorem status_follows_threshold_witness:
  "check_rule sample_db (mk_rule 1 ''codes'' ''code'' ''null_check'' no_config 5) no_config
     = Some (Inr \<lparr> metric_value = 50, status = FAIL, details = ''2/4 null values (50.00%)'' \<rparr>)
   \<and> (0::real) \<le> threshold_value (mk_rule 1 ''codes'' ''code'' ''null_check'' no_config 5)
   \<and> status \<lparr> metric_value = 50, status = FAIL, details = ''2/4 null values (50.00%)'' \<rparr> = FAIL
   \<and> \<not> (50::real) \<le> threshold_value (mk_rule 1 ''codes'' ''code'' ''null_check'' no_config 5)"
proof -
  have h: "check_rule sample_db (mk_rule 1 ''codes'' ''code'' ''null_check'' no_config 5) no_config
     = Some (Inr \<lparr> metric_value = 50, status = FAIL, details = ''2/4 null values (50.00%)'' \<rparr>)"
    by code_simp
  have t: "(0::real) \<le> threshold_value (mk_rule 1 ''codes'' ''code'' ''null_check'' no_config 5)"
    by (simp add: mk_rule_def)
  from status_follows_threshold [OF h t] h t show ?thesis by simp
qed

text \<open>
  C6. For every checker, when its denominator is zero the result has the metric value 0
  and the status Pass. The threshold is a percentage (0 to 100 in the data model), hence
  not negative.
\<close>

theorem zero_denominator_passes:
  assumes res: "check_rule db r cfg = Some (Inr res)"
    and den: "denominator db r = Some 0"
    and thr: "0 \<le> threshold_value r"
  shows "metric_value res = 0 \<and> status res = PASS"
proof -
  from den obtain tb vs where
    tb: "map_of db (table_name r) = Some tb" and
    vs: "column_values tb (column_name r) (column_name r) = Inr vs" and
    zero: "(if rule_type r = ''null_check'' then length (rows tb)
            else if rule_type r = ''format_check'' then length (filter not_null_nor_empty vs)
            else length (filter not_null vs)) = 0"
    unfolding denominator_def by (auto split: option.splits sum.splits)
  consider (nulls) "rule_type r = ''null_check''"
      "check_nulls db (table_name r) (column_name r) (threshold_value r) = Inr res"
    | (format) "rule_type r = ''format_check''"
      "check_format db (table_name r) (column_name r) (pattern cfg) (threshold_value r) = Inr res"
    | (range) "rule_type r \<noteq> ''null_check''" "rule_type r \<noteq> ''format_check''"
      "check_range db (table_name r) (column_name r) (min_key cfg) (max_key cfg)
                 (threshold_value r) = Inr res"
    | (uniq) "rule_type r \<noteq> ''null_check''" "rule_type r \<noteq> ''format_check''"
      "check_uniqueness db (table_name r) (column_name r) (threshold_value r) = Inr res"
    | (fk) "rule_type r \<noteq> ''null_check''" "rule_type r \<noteq> ''format_check''"
      "check_foreign_key db (table_name r) (column_name r) (reference_table cfg)
              (reference_column cfg) (threshold_value r) = Inr res"
    using res unfolding check_rule_def by (auto split: if_splits)
  then show ?thesis
  proof cases
    case nulls
    from check_nulls_result [OF nulls(2)] tb vs obtain
      "metric_value res = percentage (length (filter null_or_empty vs)) (length (rows tb))"
      "status res = verdict (percentage (length (filter null_or_empty vs)) (length (rows tb)))
                      (threshold_value r)"
      by (auto simp: validate_table_name_Some)
    moreover have "length (rows tb) = 0" using zero nulls(1) by simp
    ultimately show ?thesis using thr by (simp add: percentage_def verdict_zero)
  next
    case format
    from check_format_result [OF format(2)] tb vs zero format(1) show ?thesis
      by (auto simp: validate_table_name_Some)
  next
    case range
    from check_range_result [OF range(3)] tb vs have
      "if min_key cfg = None \<and> max_key cfg = None
       then metric_value res = 0 \<and> status res = PASS
       else metric_value res = percentage (length (filter (out_of_range (min_key cfg) (max_key cfg)) vs))
                                 (length (filter not_null vs))
            \<and> status res = verdict (percentage (length (filter (out_of_range (min_key cfg) (max_key cfg)) vs))
                                      (length (filter not_null vs))) (threshold_value r)"
      by (auto simp: validate_table_name_Some split: if_splits)
    moreover have "length (filter not_null vs) = 0" using zero range by simp
    ultimately show ?thesis using thr by (auto simp: percentage_def verdict_zero split: if_splits)
  next
    case uniq
    from check_uniqueness_result [OF uniq(3)] tb vs have
      "metric_value res = percentage (length (filter not_null vs) - count_distinct vs)
                            (length (filter not_null vs))"
      "status res = verdict (percentage (length (filter not_null vs) - count_distinct vs)
                               (length (filter not_null vs))) (threshold_value r)"
      by (auto simp: validate_table_name_Some)
    moreover have "length (filter not_null vs) = 0" using zero uniq by simp
    ultimately show ?thesis using thr by (simp add: percentage_def verdict_zero)
  next
    case fk
    from check_foreign_key_result [OF fk(3)] obtain ts rs where
      ts: "column_values tb (''t.'' @ column_name r) (column_name r) = Inr ts" and
      m: "metric_value res = percentage (orphans ts rs) (length (filter not_null ts))"
      "status res = verdict (percentage (orphans ts rs) (length (filter not_null ts)))
                      (threshold_value r)"
      using tb by (auto simp: validate_table_name_Some)
    from column_values_query [OF ts, of "column_name r"] vs have "ts = vs" by simp
    moreover have "length (filter not_null vs) = 0" using zero fk by simp
    ultimately show ?thesis using m thr by (simp add: percentage_def verdict_zero)
  qed
qed

theorem zero_denominator_passes_witness:
  "check_rule sample_db (mk_rule 1 ''empty'' ''item'' ''uniqueness_check'' no_config 0) no_config
     = Some (Inr \<lparr> metric_value = 0, status = PASS, details = ''0 duplicates (0.00%)'' \<rparr>)
   \<and> denominator sample_db (mk_rule 1 ''empty'' ''item'' ''uniqueness_check'' no_config 0) = Some 0
   \<and> (0::real) \<le> threshold_value (mk_rule 1 ''empty'' ''item'' ''uniqueness_check'' no_config 0)
   \<and> metric_value \<lparr> metric_value = 0, status = PASS, details = ''0 duplicates (0.00%)'' \<rparr> = 0
   \<and> status \<lparr> metric_value = 0, status = PASS, details = ''0 duplicates (0.00%)'' \<rparr> = PASS"
proof -
  have h: "check_rule sample_db (mk_rule 1 ''empty'' ''item'' ''uniqueness_check'' no_config 0) no_config
     = Some (Inr \<lparr> metric_value = 0, status = PASS, details = ''0 duplicates (0.00%)'' \<rparr>)"
    by code_simp
  have d: "denominator sample_db (mk_rule 1 ''empty'' ''item'' ''uniqueness_check'' no_config 0) = Some 0"
    by code_simp
  have t: "(0::real) \<le> threshold_value (mk_rule 1 ''empty'' ''item'' ''uniqueness_check'' no_config 0)"
    by (simp add: mk_rule_def)
  from zero_denominator_passes [OF h d t] h d t show ?thesis by simp
qed

section \<open>Properties of the rule engine\<close>

text \<open>
  The loop over a list of rules is the loop over its parts one after the other. The ids
  of the rows it inserts are those of the rules of a known kind, the ids of the results
  it returns those of the rules whose checker returned, both in the order of the rules.
  A rule of the list leaves the row of its outcome; a rule of an unknown kind leaves
  nothing. The query delivers the active rules in strictly ascending order of their ids.
\<close>

lemma run_rules_append:
  "run_rules db (xs @ ys) st =
     (case run_rules db xs st of Inl e \<Rightarrow> Inl e | Inr st' \<Rightarrow> run_rules db ys st')"
proof (induction xs arbitrary: st)
  case Nil
  then show ?case by simp
next
  case (Cons r xs)
  obtain ins res where st: "st = (ins, res)" by (cases st)
  show ?case unfolding st using Cons.IH
    by (simp split: sum.splits option.splits)
qed

lemma run_rules_ids:
  "run_rules db rs (ins, res) = Inr (ins', res') \<Longrightarrow>
     map s_rule_id ins' = map s_rule_id ins @ map rule_id (filter (\<lambda>r. rule_type r \<in> set known_kinds) rs)
   \<and> map r_rule_id res' = map r_rule_id res @ map rule_id (filter (succeeds db) rs)"
proof (induction rs arbitrary: ins res)
  case Nil
  then show ?case by simp
next
  case (Cons r rs)
  from Cons.prems obtain cfg where c: "rule_config r = Inr cfg"
    by (cases "rule_config r") auto
  show ?case
  proof (cases "check_rule db r cfg")
    case None
    then have "rule_type r \<notin> set known_kinds" by (simp add: check_rule_None)
    moreover have "\<not> succeeds db r" using c None by (simp add: succeeds_def)
    ultimately show ?thesis using Cons c None by simp
  next
    case (Some out)
    then have k: "rule_type r \<in> set known_kinds"
      using check_rule_None [of db r cfg] by auto
    show ?thesis
    proof (cases out)
      case (Inl e)
      then have "\<not> succeeds db r" using c Some by (simp add: succeeds_def)
      with Cons.IH [of "ins @ [stored_error r e]" res] Cons.prems c Some Inl k show ?thesis
        by (simp add: stored_error_def)
    next
      case (Inr x)
      then have "succeeds db r" using c Some by (simp add: succeeds_def)
      with Cons.IH [of "ins @ [stored_of r x]" "res @ [returned_of r x]"] Cons.prems c Some Inr k
      show ?thesis by (simp add: stored_of_def returned_of_def)
    qed
  qed
qed





lemma active_rules_sorted:
  "distinct (map rule_id rules) \<Longrightarrow> sorted_wrt (<) (map rule_id (active_rules rules))"
proof -
  assume d: "distinct (map rule_id rules)"
  have "distinct (map rule_id (filter is_active rules))"
    using d by (rule distinct_map_filter)
  then have "distinct (map rule_id (active_rules rules))"
    unfolding active_rules_def by (simp add: distinct_map)
  moreover have "sorted (map rule_id (active_rules rules))"
    unfolding active_rules_def by simp
  ultimately show ?thesis by (simp add: strict_sorted_iff)
qed

lemma sorted_wrt_map_filter:
  "sorted_wrt (<) (map f xs) \<Longrightarrow> sorted_wrt (<) (map f (filter P xs))"
  by (induction xs) auto

lemma run_quality_checks_completes:
  assumes "run_quality_checks db history rules = (history', Inr results)"
  shows "\<exists>inserted. run_rules db (active_rules rules) ([], []) = Inr (inserted, results)
           \<and> history' = history @ inserted"
  using assms unfolding run_quality_checks_def by (auto split: sum.splits)



text \<open>
  C5. For every table of rules, the results that \<^verbatim>\<open>run_quality_checks\<close> returns
  and the rows that it inserts are in strictly ascending order of their rule ids, in
  whatever order the rules were inserted into the table. The rule ids of a table are
  distinct: \<^verbatim>\<open>rule_id\<close> is its primary key.
\<close>

theorem results_in_ascending_rule_id_order:
  assumes "distinct (map rule_id rules)"
  shows "sorted_wrt (<) (returned_ids (snd (run_quality_checks db history rules)))
         \<and> (\<exists>inserted. fst (run_quality_checks db history rules) = history @ inserted
               \<and> sorted_wrt (<) (map s_rule_id inserted))"
proof (cases "run_rules db (active_rules rules) ([], [])")
  case (Inl e)
  then show ?thesis
    unfolding run_quality_checks_def by (simp add: returned_ids_def)
next
  case (Inr st)
  obtain inserted results where st: "st = (inserted, results)" by (cases st)
  have s: "sorted_wrt (<) (map rule_id (filter P (active_rules rules)))" for P
    using active_rules_sorted [OF assms] by (rule sorted_wrt_map_filter)
  from run_rules_ids [OF Inr [unfolded st]] s
  have "sorted_wrt (<) (map s_rule_id inserted)" "sorted_wrt (<) (map r_rule_id results)"
    by simp_all
  then show ?thesis
    unfolding run_quality_checks_def using Inr st by (simp add: returned_ids_def)
qed

text \<open>Rules inserted with the ids 3, 1, 2 give results in the order 1, 2, 3.\<close>

lemma unordered_run:
  "run_quality_checks sample_db [] unordered_rules =
     ([\<lparr> s_rule_id = 1, s_table_name = ''ages'', s_column_name = ''age'',
          s_metric_value = 0, s_threshold_value = 5, s_status = PASS,
          s_details = ''0/4 null values (0.00%)'' \<rparr>,
       \<lparr> s_rule_id = 2, s_table_name = ''letters'', s_column_name = ''letter'',
          s_metric_value = 40, s_threshold_value = 5, s_status = FAIL,
          s_details = ''2 duplicates (40.00%)'' \<rparr>,
       \<lparr> s_rule_id = 3, s_table_name = ''codes'', s_column_name = ''code'',
          s_metric_value = 50, s_threshold_value = 5, s_status = FAIL,
          s_details = ''2/4 null values (50.00%)'' \<rparr>],
      Inr [\<lparr> r_rule_id = 1, r_table_name = ''ages'', r_column_name = ''age'',
             r_rule_type = ''null_check'', r_metric_value = 0, r_threshold_value = 5,
             r_status = PASS, r_details = ''0/4 null values (0.00%)'' \<rparr>,
           \<lparr> r_rule_id = 2, r_table_name = ''letters'', r_column_name = ''letter'',
             r_rule_type = ''uniqueness_check'', r_metric_value = 40, r_threshold_value = 5,
             r_status = FAIL, r_details = ''2 duplicates (40.00%)'' \<rparr>,
           \<lparr> r_rule_id = 3, r_table_name = ''codes'', r_column_name = ''code'',
             r_rule_type = ''null_check'', r_metric_value = 50, r_threshold_value = 5,
             r_status = FAIL, r_details = ''2/4 null values (50.00%)'' \<rparr>])"
  by code_simp

theorem results_in_ascending_rule_id_order_witness:
  "map rule_id unordered_rules = [3, 1, 2]
   \<and> distinct (map rule_id unordered_rules)
   \<and> returned_ids (snd (run_quality_checks sample_db [] unordered_rules)) = [1, 2, 3]
   \<and> map s_rule_id (fst (run_quality_checks sample_db [] unordered_rules)) = [1, 2, 3]
   \<and> sorted_wrt (<) (returned_ids (snd (run_quality_checks sample_db [] unordered_rules)))"
proof -
  have ids: "map rule_id unordered_rules = [3, 1, 2]"
    by (simp add: unordered_rules_def mk_rule_def)
  then have d: "distinct (map rule_id unordered_rules)" by simp
  from results_in_ascending_rule_id_order [OF d, of sample_db "[]"] ids d
  show ?thesis by (simp add: unordered_run returned_ids_def)
qed

text \<open>
  A returned result never has the status Error: the \<^verbatim>\<open>except\<close> branch inserts its
  row and does not append to the list \<^verbatim>\<open>results\<close>, as the branch of a result does.
\<close>

lemma check_rule_status:
  "check_rule db r cfg = Some (Inr res) \<Longrightarrow> status res \<noteq> ERROR"
  using check_rule_result [of db r cfg res] by (auto simp: verdict_def split: if_splits)

lemma run_rules_returned_status:
  "run_rules db rs (ins, res) = Inr (ins', res') \<Longrightarrow> list_all (\<lambda>x. r_status x \<noteq> ERROR) res
     \<Longrightarrow> list_all (\<lambda>x. r_status x \<noteq> ERROR) res'"
proof (induction rs arbitrary: ins res)
  case Nil
  then show ?case by simp
next
  case (Cons r rs)
  from Cons.prems(1) obtain cfg where c: "rule_config r = Inr cfg"
    by (cases "rule_config r") auto
  show ?case
  proof (cases "check_rule db r cfg")
    case None
    with Cons c show ?thesis by simp
  next
    case (Some out)
    show ?thesis
    proof (cases out)
      case (Inl e)
      with Cons.IH [of "ins @ [stored_error r e]" res] Cons.prems c Some show ?thesis by simp
    next
      case (Inr x)
      with Some have "status x \<noteq> ERROR" using check_rule_status by blast
      with Cons.IH [of "ins @ [stored_of r x]" "res @ [returned_of r x]"] Cons.prems c Some Inr
      show ?thesis by (simp add: returned_of_def)
    qed
  qed
qed

lemma returned_results_never_error:
  assumes "run_quality_checks db history rules = (history', Inr results)"
  shows "list_all (\<lambda>x. r_status x \<noteq> ERROR) results"
proof -
  from run_quality_checks_completes [OF assms] obtain inserted where
    "run_rules db (active_rules rules) ([], []) = Inr (inserted, results)" by blast
  from run_rules_returned_status [OF this] show ?thesis by simp
qed

text \<open>
  C3. For every active rule whose checker raises, the engine is to catch the exception,
  record a result with status Error, metric value 0 and the message as details, go on
  with the remaining rules, and return a list with one result for each active rule,
  these Error results included. At a rule on a table that does not exist, followed by a
  rule that passes, the code inserts the Error row and the row of the second rule, and
  the list it returns holds the result of the second rule only.
\<close>

theorem error_result_not_returned:
  "run_quality_checks sample_db [] raising_rules =
     ([\<lparr> s_rule_id = 1, s_table_name = ''nowhere'', s_column_name = ''code'',
          s_metric_value = 0, s_threshold_value = 5, s_status = ERROR,
          s_details = ''Invalid table name: nowhere'' \<rparr>,
       \<lparr> s_rule_id = 2, s_table_name = ''ages'', s_column_name = ''age'',
          s_metric_value = 0, s_threshold_value = 5, s_status = PASS,
          s_details = ''0/4 null values (0.00%)'' \<rparr>],
      Inr [\<lparr> r_rule_id = 2, r_table_name = ''ages'', r_column_name = ''age'',
             r_rule_type = ''null_check'', r_metric_value = 0, r_threshold_value = 5,
             r_status = PASS, r_details = ''0/4 null values (0.00%)'' \<rparr>])
   \<and> map rule_id (active_rules raising_rules) = [1, 2]"
  by code_simp






section \<open>The format check of the specification's example\<close>

text \<open>
  C2 (as the code has it). The format check with the pattern \<^verbatim>\<open>^[0-9]+$\<close> on the
  values \<^verbatim>\<open>["123", "12a", "", NULL]\<close> has the denominator 2 (the empty string and
  the NULL are left out) and counts one violation: \<^verbatim>\<open>12a\<close> does not match, because
  the \<^verbatim>\<open>$\<close> of the pattern asks for the end of the value after the digits. The
  metric is 50 percent. \<^verbatim>\<open>re.match\<close> itself anchors at the start only: with the
  pattern \<^verbatim>\<open>^[0-9]+\<close>, without the \<^verbatim>\<open>$\<close>, the value \<^verbatim>\<open>12a\<close> matches, no
  violation is counted and the metric is 0 percent.
\<close>

theorem format_check_of_codes:
  "check_format sample_db ''codes'' ''code'' (Some ''^[0-9]+$'') thr
     = Inr \<lparr> metric_value = 50, status = verdict 50 thr, details = ''1/2 invalid format (50.00%)'' \<rparr>
   \<and> check_format sample_db ''codes'' ''code'' (Some ''^[0-9]+'') thr
     = Inr \<lparr> metric_value = 0, status = verdict 0 thr, details = ''0/2 invalid format (0.00%)'' \<rparr>
   \<and> re_match ''^[0-9]+$'' ''123'' = Inr True
   \<and> re_match ''^[0-9]+$'' ''12a'' = Inr False
   \<and> re_match ''^[0-9]+'' ''12a'' = Inr True"
proof (intro conjI)
  show "check_format sample_db ''codes'' ''code'' (Some ''^[0-9]+$'') thr
     = Inr \<lparr> metric_value = 50, status = verdict 50 thr, details = ''1/2 invalid format (50.00%)'' \<rparr>"
    by code_simp simp
  show "check_format sample_db ''codes'' ''code'' (Some ''^[0-9]+'') thr
     = Inr \<lparr> metric_value = 0, status = verdict 0 thr, details = ''0/2 invalid format (0.00%)'' \<rparr>"
    by code_simp simp
  show "re_match ''^[0-9]+$'' ''123'' = Inr True" by code_simp
  show "re_match ''^[0-9]+$'' ''12a'' = Inr False" by code_simp
  show "re_match ''^[0-9]+'' ''12a'' = Inr True" by code_simp
qed

text \<open>
  C2 as stated fails: with the pattern \<^verbatim>\<open>^[0-9]+$\<close> the check counts 1 violation of
  2 values, and the metric is 50 percent, not 0.
\<close>

theorem prefix_match_counted_counterexample:
  "check_format sample_db ''codes'' ''code'' (Some ''^[0-9]+$'') 10
     = Inr \<lparr> metric_value = 50, status = FAIL, details = ''1/2 invalid format (50.00%)'' \<rparr>"
  by code_simp

section \<open>The details of a result\<close>

text \<open>The number that \<^verbatim>\<open>:.2f\<close> prints is within half a hundredth of the value.\<close>

lemma round_half_even_close: "\<bar>real_of_int (round_half_even y) - y\<bar> \<le> 1 / 2"
proof -
  define f where "f = \<lfloor>y\<rfloor>"
  have b: "real_of_int f \<le> y" "y < real_of_int f + 1" unfolding f_def by linarith+
  have r: "round_half_even y
             = (if y - real_of_int f < 1 / 2 then f
                else if 1 / 2 < y - real_of_int f then f + 1
                else if even f then f else f + 1)"
    unfolding round_half_even_def f_def Let_def by simp
  consider "y - real_of_int f < 1 / 2" | "1 / 2 < y - real_of_int f" | "y - real_of_int f = 1 / 2"
    by linarith
  then show ?thesis
  proof cases
    case 1
    with r b show ?thesis by simp
  next
    case 2
    with r b show ?thesis by simp
  next
    case 3
    with r b show ?thesis by (cases "even f") simp_all
  qed
qed

lemma denominator_of:
  assumes "validate_table_name db (Some (table_name r)) = Inr tb"
    and "column_values tb q (column_name r) = Inr vs"
  shows "denominator db r
           = Some (if rule_type r = ''null_check'' then length (rows tb)
                   else if rule_type r = ''format_check'' then length (filter not_null_nor_empty vs)
                   else length (filter not_null vs))"
  using assms column_values_query [OF assms(2), of "column_name r"]
  unfolding denominator_def by (simp add: validate_table_name_Some)

text \<open>
  C10 (as the code has it). With \<open>n\<close> the count of violations, \<open>d\<close> the
  denominator and the percentage printed with two decimals: the details of a null check
  are \<^verbatim>\<open>n/d null values (pct%)\<close>; of a format check \<^verbatim>\<open>n/d invalid format (pct%)\<close>,
  or \<^verbatim>\<open>No values to check\<close> when the denominator is 0; of a range check
  \<^verbatim>\<open>n/d out of range (pct%)\<close>, or \<^verbatim>\<open>No range specified\<close> when no bound is given;
  of a uniqueness check \<^verbatim>\<open>n duplicates (pct%)\<close> and of a foreign key check
  \<^verbatim>\<open>n orphan records (pct%)\<close>, both without the denominator. The metric value is
  the quotient itself, not the rounded number.
\<close>

theorem details_of_each_checker:
  assumes "check_rule db r cfg = Some (Inr res)"
  shows "\<exists>n d. denominator db r = Some d \<and> n \<le> d
         \<and> (rule_type r = ''null_check'' \<longrightarrow>
               metric_value res = percentage n d
               \<and> details res = dec_nat n @ ''/'' @ dec_nat d @ '' null values (''
                                @ fmt_2f (metric_value res) @ ''%)'')
         \<and> (rule_type r = ''format_check'' \<longrightarrow>
               (if d = 0 then metric_value res = 0 \<and> details res = ''No values to check''
                else metric_value res = percentage n d
                     \<and> details res = dec_nat n @ ''/'' @ dec_nat d @ '' invalid format (''
                                      @ fmt_2f (metric_value res) @ ''%)''))
         \<and> (rule_type r = ''range_check'' \<longrightarrow>
               (if min_key cfg = None \<and> max_key cfg = None
                then metric_value res = 0 \<and> details res = ''No range specified''
                else metric_value res = percentage n d
                     \<and> details res = dec_nat n @ ''/'' @ dec_nat d @ '' out of range (''
                                      @ fmt_2f (metric_value res) @ ''%)''))
         \<and> (rule_type r = ''uniqueness_check'' \<longrightarrow>
               metric_value res = percentage n d
               \<and> details res = dec_nat n @ '' duplicates ('' @ fmt_2f (metric_value res) @ ''%)'')
         \<and> (rule_type r = ''foreign_key_check'' \<longrightarrow>
               metric_value res = percentage n d
               \<and> details res = dec_nat n @ '' orphan records (''
                                @ fmt_2f (metric_value res) @ ''%)'')"
proof -
  consider (nulls) "rule_type r = ''null_check''"
      "check_nulls db (table_name r) (column_name r) (threshold_value r) = Inr res"
    | (format) "rule_type r = ''format_check''"
      "check_format db (table_name r) (column_name r) (pattern cfg) (threshold_value r) = Inr res"
    | (range) "rule_type r = ''range_check''"
      "check_range db (table_name r) (column_name r) (min_key cfg) (max_key cfg)
                 (threshold_value r) = Inr res"
    | (uniq) "rule_type r = ''uniqueness_check''"
      "check_uniqueness db (table_name r) (column_name r) (threshold_value r) = Inr res"
    | (fk) "rule_type r = ''foreign_key_check''"
      "check_foreign_key db (table_name r) (column_name r) (reference_table cfg)
              (reference_column cfg) (threshold_value r) = Inr res"
    using assms unfolding check_rule_def by (auto split: if_splits)
  then show ?thesis
  proof cases
    case nulls
    from check_nulls_result [OF nulls(2)] obtain tb vs where
      v: "validate_table_name db (Some (table_name r)) = Inr tb" and
      c: "column_values tb (column_name r) (column_name r) = Inr vs" and
      res: "res = \<lparr> metric_value = percentage (length (filter null_or_empty vs)) (length (rows tb)),
                   status = verdict (percentage (length (filter null_or_empty vs)) (length (rows tb)))
                              (threshold_value r),
                   details = dec_nat (length (filter null_or_empty vs)) @ ''/''
                             @ dec_nat (length (rows tb)) @ '' null values (''
                             @ fmt_2f (percentage (length (filter null_or_empty vs)) (length (rows tb)))
                             @ ''%)'' \<rparr>"
      by blast
    have le: "length (filter null_or_empty vs) \<le> length (rows tb)"
      using column_values_length [OF c] length_filter_le [of null_or_empty vs] by simp
    have d: "denominator db r = Some (length (rows tb))"
      using denominator_of [OF v c] nulls(1) by simp
    show ?thesis
      by (rule exI [of _ "length (filter null_or_empty vs)"], rule exI [of _ "length (rows tb)"])
         (simp add: d le res nulls(1))
  next
    case format
    from check_format_result [OF format(2)] obtain tb vs n where
      v: "validate_table_name db (Some (table_name r)) = Inr tb" and
      c: "column_values tb (column_name r) (column_name r) = Inr vs" and
      le: "n \<le> length (filter not_null_nor_empty vs)" and
      res: "if filter not_null_nor_empty vs = []
          then res = \<lparr> metric_value = 0, status = PASS, details = ''No values to check'' \<rparr>
          else res = \<lparr> metric_value = percentage n (length (filter not_null_nor_empty vs)),
                        status = verdict (percentage n (length (filter not_null_nor_empty vs)))
                                   (threshold_value r),
                        details = dec_nat n @ ''/''
                                  @ dec_nat (length (filter not_null_nor_empty vs))
                                  @ '' invalid format (''
                                  @ fmt_2f (percentage n (length (filter not_null_nor_empty vs)))
                                  @ ''%)'' \<rparr>"
      by blast
    have d: "denominator db r = Some (length (filter not_null_nor_empty vs))"
      using denominator_of [OF v c] format(1) by simp
    show ?thesis
    proof (cases "filter not_null_nor_empty vs = []")
      case True
      with res have "res = \<lparr> metric_value = 0, status = PASS, details = ''No values to check'' \<rparr>"
        by simp
      then show ?thesis
        by (intro exI [of _ 0] exI [of _ "length (filter not_null_nor_empty vs)"])
           (simp add: d True format(1))
    next
      case False
      with res have "res = \<lparr> metric_value = percentage n (length (filter not_null_nor_empty vs)),
                        status = verdict (percentage n (length (filter not_null_nor_empty vs)))
                                   (threshold_value r),
                        details = dec_nat n @ ''/''
                                  @ dec_nat (length (filter not_null_nor_empty vs))
                                  @ '' invalid format (''
                                  @ fmt_2f (percentage n (length (filter not_null_nor_empty vs)))
                                  @ ''%)'' \<rparr>"
        by simp
      then show ?thesis
        by (intro exI [of _ n] exI [of _ "length (filter not_null_nor_empty vs)"])
           (simp add: d le False format(1))
    qed
  next
    case range
    from check_range_result [OF range(2)] obtain tb vs where
      v: "validate_table_name db (Some (table_name r)) = Inr tb" and
      c: "column_values tb (column_name r) (column_name r) = Inr vs" and
      res: "if min_key cfg = None \<and> max_key cfg = None
            then res = \<lparr> metric_value = 0, status = PASS, details = ''No range specified'' \<rparr>
            else res = \<lparr> metric_value = percentage (length (filter (out_of_range (min_key cfg) (max_key cfg)) vs))
                                           (length (filter not_null vs)),
                          status = verdict (percentage (length (filter (out_of_range (min_key cfg) (max_key cfg)) vs))
                                              (length (filter not_null vs))) (threshold_value r),
                          details = dec_nat (length (filter (out_of_range (min_key cfg) (max_key cfg)) vs)) @ ''/''
                                    @ dec_nat (length (filter not_null vs)) @ '' out of range (''
                                    @ fmt_2f (percentage (length (filter (out_of_range (min_key cfg) (max_key cfg)) vs))
                                                (length (filter not_null vs)))
                                    @ ''%)'' \<rparr>"
      by blast
    have d: "denominator db r = Some (length (filter not_null vs))"
      using denominator_of [OF v c] range(1) by simp
    show ?thesis
    proof (cases "min_key cfg = None \<and> max_key cfg = None")
      case True
      with res have "res = \<lparr> metric_value = 0, status = PASS, details = ''No range specified'' \<rparr>"
        by simp
      then show ?thesis
        by (intro exI [of _ 0] exI [of _ "length (filter not_null vs)"])
           (simp add: d True range(1))
    next
      case False
      with res have "res = \<lparr> metric_value = percentage (length (filter (out_of_range (min_key cfg) (max_key cfg)) vs))
                                           (length (filter not_null vs)),
                          status = verdict (percentage (length (filter (out_of_range (min_key cfg) (max_key cfg)) vs))
                                              (length (filter not_null vs))) (threshold_value r),
                          details = dec_nat (length (filter (out_of_range (min_key cfg) (max_key cfg)) vs)) @ ''/''
                                    @ dec_nat (length (filter not_null vs)) @ '' out of range (''
                                    @ fmt_2f (percentage (length (filter (out_of_range (min_key cfg) (max_key cfg)) vs))
                                                (length (filter not_null vs)))
                                    @ ''%)'' \<rparr>"
        by (simp split: if_splits)
      then show ?thesis
        using False out_of_range_le [of "min_key cfg" "max_key cfg" vs]
        by (intro exI [of _ "length (filter (out_of_range (min_key cfg) (max_key cfg)) vs)"]
              exI [of _ "length (filter not_null vs)"])
           (simp add: d range(1))
    qed
  next
    case uniq
    from check_uniqueness_result [OF uniq(2)] obtain tb vs where
      v: "validate_table_name db (Some (table_name r)) = Inr tb" and
      c: "column_values tb (column_name r) (column_name r) = Inr vs" and
      res: "res = \<lparr> metric_value = percentage (length (filter not_null vs) - count_distinct vs)
                                    (length (filter not_null vs)),
                   status = verdict (percentage (length (filter not_null vs) - count_distinct vs)
                                       (length (filter not_null vs))) (threshold_value r),
                   details = dec_nat (length (filter not_null vs) - count_distinct vs)
                             @ '' duplicates (''
                             @ fmt_2f (percentage (length (filter not_null vs) - count_distinct vs)
                                         (length (filter not_null vs)))
                             @ ''%)'' \<rparr>"
      by blast
    have d: "denominator db r = Some (length (filter not_null vs))"
      using denominator_of [OF v c] uniq(1) by simp
    show ?thesis
      by (intro exI [of _ "length (filter not_null vs) - count_distinct vs"]
            exI [of _ "length (filter not_null vs)"])
         (simp add: d res uniq(1))
  next
    case fk
    from check_foreign_key_result [OF fk(2)] obtain tb ts rs where
      v: "validate_table_name db (Some (table_name r)) = Inr tb" and
      c: "column_values tb (''t.'' @ column_name r) (column_name r) = Inr ts" and
      res: "res = \<lparr> metric_value = percentage (orphans ts rs) (length (filter not_null ts)),
                   status = verdict (percentage (orphans ts rs) (length (filter not_null ts)))
                              (threshold_value r),
                   details = dec_nat (orphans ts rs) @ '' orphan records (''
                             @ fmt_2f (percentage (orphans ts rs) (length (filter not_null ts)))
                             @ ''%)'' \<rparr>"
      by blast
    have d: "denominator db r = Some (length (filter not_null ts))"
      using denominator_of [OF v c] fk(1) by simp
    show ?thesis
      using orphans_le [of ts rs]
      by (intro exI [of _ "orphans ts rs"] exI [of _ "length (filter not_null ts)"])
         (simp add: d res fk(1))
  qed
qed

lemma letters_check:
  "check_rule sample_db (mk_rule 1 ''letters'' ''letter'' ''uniqueness_check'' no_config 50) no_config
     = Some (Inr \<lparr> metric_value = 40, status = PASS, details = ''2 duplicates (40.00%)'' \<rparr>)"
  "denominator sample_db (mk_rule 1 ''letters'' ''letter'' ''uniqueness_check'' no_config 50) = Some 5"
  by code_simp+

theorem details_of_each_checker_witness:
  "check_rule sample_db (mk_rule 1 ''letters'' ''letter'' ''uniqueness_check'' no_config 50) no_config
     = Some (Inr \<lparr> metric_value = 40, status = PASS, details = ''2 duplicates (40.00%)'' \<rparr>)
   \<and> denominator sample_db (mk_rule 1 ''letters'' ''letter'' ''uniqueness_check'' no_config 50) = Some 5
   \<and> (\<exists>n. n \<le> 5 \<and> (40::real) = percentage n 5
         \<and> ''2 duplicates (40.00%)'' = dec_nat n @ '' duplicates ('' @ fmt_2f 40 @ ''%)'')"
proof -
  have k: "rule_type (mk_rule 1 ''letters'' ''letter'' ''uniqueness_check'' no_config 50) = ''uniqueness_check''"
    by (simp add: mk_rule_def)
  from details_of_each_checker [OF letters_check(1)] k letters_check show ?thesis by auto
qed

text \<open>
  C10 as stated fails: the details of the uniqueness check of the letters
  \<^verbatim>\<open>[a, a, a, b, c]\<close> are \<^verbatim>\<open>2 duplicates (40.00%)\<close>; they do not begin with
  \<^verbatim>\<open>2/5\<close>, the count, a slash and the denominator 5.
\<close>

theorem details_without_denominator_counterexample:
  "check_uniqueness sample_db ''letters'' ''letter'' 50
     = Inr \<lparr> metric_value = 40, status = PASS, details = ''2 duplicates (40.00%)'' \<rparr>
   \<and> denominator sample_db (mk_rule 1 ''letters'' ''letter'' ''uniqueness_check'' no_config 50) = Some 5"
  by code_simp

section \<open>Properties of the profiler\<close>

lemma profile_data_nth:
  assumes "profile_data db tn = Inr ps" and "i < length ps"
  shows "\<exists>t cname data_type. map_of db tn = Some t \<and> i < length (columns t)
           \<and> columns t ! i = (cname, data_type) \<and> ps ! i = profile_column t i cname data_type"
proof -
  from assms(1) obtain t where t: "map_of db tn = Some t"
    and ps: "ps = map (\<lambda>(i, (cname, data_type)). profile_column t i cname data_type)
                    (enumerate 0 (columns t))"
    unfolding profile_data_def by (auto split: sum.splits simp: validate_table_name_Some)
  from assms(2) ps have len: "i < length (columns t)" by simp
  obtain cname data_type where col: "columns t ! i = (cname, data_type)"
    by (cases "columns t ! i")
  have "ps ! i = profile_column t i cname data_type"
    using ps len col by (simp add: nth_enumerate_eq)
  with t len col show ?thesis by blast
qed

lemma count_distinct_le_nonempty:
  "count_distinct vs \<le> length (filter not_null_nor_empty vs) + 1"
proof -
  have "set (map sql_key (filter not_null vs))
          \<subseteq> insert (TextV []) (set (map sql_key (filter not_null_nor_empty vs)))"
    by (auto simp: not_null_def not_null_nor_empty_def)
  then have "card (set (map sql_key (filter not_null vs)))
          \<le> card (insert (TextV []) (set (map sql_key (filter not_null_nor_empty vs))))"
    by (intro card_mono) auto
  also have "\<dots> \<le> Suc (card (set (map sql_key (filter not_null_nor_empty vs))))"
    by (simp add: card_insert_if)
  also have "\<dots> \<le> Suc (length (map sql_key (filter not_null_nor_empty vs)))"
    using card_length [of "map sql_key (filter not_null_nor_empty vs)"] by simp
  finally show ?thesis
    unfolding count_distinct_def by (simp add: length_remdups_card_conv)
qed

lemma null_or_empty_complement:
  "length (filter not_null_nor_empty vs) = length vs - length (filter null_or_empty vs)"
proof -
  have "not_null_nor_empty = (\<lambda>c. \<not> null_or_empty c)"
    by (auto simp: not_null_nor_empty_def null_or_empty_def)
  then show ?thesis
    using sum_length_filter_compl [of null_or_empty vs] by simp
qed

lemma no_empty_text:
  "TextV [] \<notin> set vs \<Longrightarrow> filter not_null vs = filter not_null_nor_empty vs"
  by (rule filter_cong) (auto simp: not_null_def not_null_nor_empty_def)

text \<open>
  C8 (as the code has it). In every column profile, the null count (the values that are
  NULL or the empty string) is at most the total count, and the distinct count (the
  distinct values that are not NULL) is at most the total count and at most the total
  count minus the null count plus 1: the empty string counts as null and is also a
  distinct value that is not NULL. When no value of the column is the empty string, the
  distinct count is at most the total count minus the null count.
\<close>

theorem profile_counts:
  assumes "profile_data db tn = Inr ps" and "i < length ps"
  shows "\<exists>t. map_of db tn = Some t
           \<and> total_count (ps ! i) = length (rows t)
           \<and> null_count (ps ! i) = length (filter null_or_empty (column_values_at t i))
           \<and> unique_count (ps ! i) = count_distinct (column_values_at t i)
           \<and> null_count (ps ! i) \<le> total_count (ps ! i)
           \<and> unique_count (ps ! i) \<le> total_count (ps ! i)
           \<and> unique_count (ps ! i) \<le> total_count (ps ! i) - null_count (ps ! i) + 1
           \<and> (TextV [] \<notin> set (column_values_at t i) \<longrightarrow>
                unique_count (ps ! i) \<le> total_count (ps ! i) - null_count (ps ! i))"
proof -
  from profile_data_nth [OF assms] obtain t cname data_type where
    t: "map_of db tn = Some t" and p: "ps ! i = profile_column t i cname data_type"
    by blast
  let ?vs = "column_values_at t i"
  have len: "length ?vs = length (rows t)" by (simp add: column_values_at_def)
  have total: "total_count (ps ! i) = length (rows t)"
    and nulls: "null_count (ps ! i) = length (filter null_or_empty ?vs)"
    and uniq: "unique_count (ps ! i) = count_distinct ?vs"
    unfolding p profile_column_def column_values_at_def Let_def by simp_all
  have a: "length (filter null_or_empty ?vs) \<le> length (rows t)"
    using length_filter_le [of null_or_empty ?vs] len by simp
  have b: "count_distinct ?vs \<le> length (rows t)"
    using count_distinct_le [of ?vs] length_filter_le [of not_null ?vs] len by linarith
  have c: "count_distinct ?vs \<le> length (rows t) - length (filter null_or_empty ?vs) + 1"
    using count_distinct_le_nonempty [of ?vs] null_or_empty_complement [of ?vs] len by simp
  have d: "count_distinct ?vs \<le> length (rows t) - length (filter null_or_empty ?vs)"
    if "TextV [] \<notin> set ?vs"
    using count_distinct_le [of ?vs] no_empty_text [OF that] null_or_empty_complement [of ?vs] len
    by simp
  show ?thesis
    unfolding total nulls uniq using t a b c d by blast
qed

lemma ages_profile:
  "profile_data sample_db ''ages'' = Inr [profile_column ages_table 0 ''age'' ''INTEGER'']"
  by (simp add: profile_data_def validate_table_name_def sample_db_def ages_table_def)

theorem profile_counts_witness:
  "profile_data sample_db ''ages'' = Inr [profile_column ages_table 0 ''age'' ''INTEGER'']
   \<and> (0::nat) < length [profile_column ages_table 0 ''age'' ''INTEGER'']
   \<and> total_count (profile_column ages_table 0 ''age'' ''INTEGER'') = 4
   \<and> null_count (profile_column ages_table 0 ''age'' ''INTEGER'') \<le> 4
   \<and> unique_count (profile_column ages_table 0 ''age'' ''INTEGER'') \<le> 4"
proof -
  have l: "(0::nat) < length [profile_column ages_table 0 ''age'' ''INTEGER'']" by simp
  have t: "map_of sample_db ''ages'' = Some ages_table" by (simp add: sample_db_def)
  have r: "length (rows ages_table) = 4" by (simp add: ages_table_def)
  from profile_counts [OF ages_profile l] t r ages_profile show ?thesis by auto
qed

text \<open>
  C8 as stated fails: a column whose only value is the empty string has the total count
  1, the null count 1 and the distinct count 1, which exceeds the total count minus the
  null count.
\<close>

theorem distinct_exceeds_non_null_counterexample:
  "profile_data sample_db ''blank'' =
     Inr [\<lparr> p_column_name = ''note'', p_data_type = ''TEXT'', total_count = 1, null_count = 1,
            unique_count = 1, min_value = IntV 0, max_value = IntV 0, avg_value = Some 0,
            std_dev = None, null_percentage = 100, unique_percentage = 100 \<rparr>]"
  by (simp add: profile_data_def validate_table_name_def sample_db_def blank_table_def
      profile_column_def Let_def cell_at_def null_or_empty_def not_null_def count_distinct_def
      sql_min_def sql_max_def sql_avg_def sql_length_def percentage_def)

lemma sum_squares_nonneg: "0 \<le> sum_list (map (\<lambda>x. (x - m) * (x - m)) (xs :: real list))"
  by (induction xs) auto

lemma variance_of_numbers:
  "variance_of (column_values_at t i) m
     = sql_avg (map (\<lambda>x. (x - m) * (x - m)) (column_numbers t i))"
  unfolding variance_of_def column_numbers_def by (simp add: comp_def)

text \<open>
  C9. For every column whose declared type is \<^verbatim>\<open>INTEGER\<close>, \<^verbatim>\<open>REAL\<close> or
  \<^verbatim>\<open>DECIMAL\<close>, the standard deviation of the profile is the population standard
  deviation by the two-pass formula: the square root of the mean of the squared
  distances from the mean, over the values that are not NULL, the variance clamped to 0
  before the square root. The variance is never negative, the power never yields a
  complex number, and the standard deviation is a real number that is not negative. A
  column with no value has no standard deviation.
\<close>

theorem std_dev_is_population_std_dev:
  assumes "profile_data db tn = Inr ps" and "i < length ps"
    and "p_data_type (ps ! i) \<in> set [''INTEGER'', ''REAL'', ''DECIMAL'']"
  shows "\<exists>t. map_of db tn = Some t
           \<and> std_dev (ps ! i)
               = (if column_numbers t i = [] then None
                  else Some (PyNum (std_dev_spec (column_numbers t i))))
           \<and> std_dev_spec (column_numbers t i) = sqrt (population_variance (column_numbers t i))
           \<and> 0 \<le> population_variance (column_numbers t i)
           \<and> 0 \<le> std_dev_spec (column_numbers t i)
           \<and> std_dev (ps ! i) \<noteq> Some PyComplex"
proof -
  from profile_data_nth [OF assms(1,2)] obtain t cname data_type where
    t: "map_of db tn = Some t" and p: "ps ! i = profile_column t i cname data_type"
    by blast
  have dt: "data_type \<in> set [''INTEGER'', ''REAL'', ''DECIMAL'']"
    using assms(3) unfolding p profile_column_def Let_def by simp
  let ?xs = "column_numbers t i"
  let ?m = "sum_list ?xs / real (length ?xs)"
  have var: "population_variance ?xs = sum_list (map (\<lambda>x. (x - ?m) * (x - ?m)) ?xs) / real (length ?xs)"
    unfolding population_variance_def Let_def by (simp add: power2_eq_square)
  have nonneg: "0 \<le> population_variance ?xs"
    unfolding var using sum_squares_nonneg [of ?m ?xs] by simp
  have spec: "std_dev_spec ?xs = sqrt (population_variance ?xs)"
    unfolding std_dev_spec_def using nonneg by (simp add: max_def)
  have sd: "std_dev (ps ! i) = (if ?xs = [] then None else Some (PyNum (std_dev_spec ?xs)))"
  proof (cases "?xs = []")
    case True
    then show ?thesis
      unfolding p profile_column_def Let_def using dt
      by (simp add: sql_avg_def column_numbers_def column_values_at_def)
  next
    case False
    have avg: "sql_avg ?xs = Some ?m" using False by (simp add: sql_avg_def)
    have v: "variance_of (column_values_at t i) ?m = Some (population_variance ?xs)"
      unfolding variance_of_numbers var using False by (simp add: sql_avg_def)
    have "std_dev_of (Some (population_variance ?xs)) = PyNum (std_dev_spec ?xs)"
      using nonneg unfolding std_dev_of_def pow_half_def std_dev_spec_def
      by (auto simp: max_def)
    with avg v False show ?thesis
      unfolding p profile_column_def Let_def using dt
      by (simp add: column_numbers_def column_values_at_def)
  qed
  have "0 \<le> std_dev_spec ?xs" unfolding std_dev_spec_def by simp
  with t sd nonneg spec show ?thesis by (auto split: if_splits)
qed

theorem std_dev_is_population_std_dev_witness:
  "profile_data sample_db ''ages'' = Inr [profile_column ages_table 0 ''age'' ''INTEGER'']
   \<and> (0::nat) < length [profile_column ages_table 0 ''age'' ''INTEGER'']
   \<and> p_data_type (profile_column ages_table 0 ''age'' ''INTEGER'') \<in> set [''INTEGER'', ''REAL'', ''DECIMAL'']
   \<and> column_numbers ages_table 0 = [25, 150, - 5, 40]
   \<and> std_dev (profile_column ages_table 0 ''age'' ''INTEGER'') = Some (PyNum (std_dev_spec [25, 150, - 5, 40]))
   \<and> population_variance [25, 150, - 5, 40] = 13725 / 4"
proof -
  have l: "(0::nat) < length [profile_column ages_table 0 ''age'' ''INTEGER'']" by simp
  have d: "p_data_type ([profile_column ages_table 0 ''age'' ''INTEGER''] ! 0)
             \<in> set [''INTEGER'', ''REAL'', ''DECIMAL'']"
    by (simp add: profile_column_def Let_def)
  have t: "map_of sample_db ''ages'' = Some ages_table" by (simp add: sample_db_def)
  have n: "column_numbers ages_table 0 = [25, 150, - 5, 40]"
    by (simp add: column_numbers_def column_values_at_def ages_table_def cell_at_def not_null_def)
  have v: "population_variance [25, 150, - 5, 40] = 13725 / 4"
    by (simp add: population_variance_def Let_def power2_eq_square)
  from std_dev_is_population_std_dev [OF ages_profile l d] t n v ages_profile d
  show ?thesis by auto
qed

end
